theory Spec2Isabelle
  imports Main "HOL-Library.AList" "HOL-Library.Word" "HOL-Library.Sublist"
begin

section \<open>Path strings (posixpath)\<close>

text \<open>
  Paths are Python \<open>str\<close> values, here \<open>string\<close>. \<open>join\<close> is \<open>os.path.join\<close> for two
  arguments, \<open>basename\<close> is \<open>os.path.basename\<close>. \<open>components\<close> is how the operating
  system reads a path string: it is cut at every separator, and empty components and
  \<open>.\<close> are skipped (so a trailing separator is ignored). Symbolic links and \<open>..\<close>
  are not modelled, and the working directory is the root of the tree, so a relative
  and an absolute spelling of the same components name the same object.
\<close>

definition sep :: char where
  "sep = CHR ''/''"

definition join :: "string \<Rightarrow> string \<Rightarrow> string" where
  "join a b =
     (if b \<noteq> [] \<and> hd b = sep then b
      else if a = [] \<or> last a = sep then a @ b
      else a @ sep # b)"

definition basename :: "string \<Rightarrow> string" where
  "basename p = rev (takeWhile (\<lambda>c. c \<noteq> sep) (rev p))"

fun split_sep :: "string \<Rightarrow> string list" where
  "split_sep [] = [[]]"
| "split_sep (c # cs) =
     (if c = sep then [] # split_sep cs
      else (case split_sep cs of [] \<Rightarrow> [[c]] | w # ws \<Rightarrow> (c # w) # ws))"

definition components :: "string \<Rightarrow> string list" where
  "components p = filter (\<lambda>c. c \<noteq> [] \<and> c \<noteq> ''.'') (split_sep p)"

section \<open>The file system\<close>

type_synonym bytes = "8 word list"

text \<open>
  A directory is an association list from names to nodes, in the order \<open>os.listdir\<close>
  reports them. The first entry of a name is the one a lookup finds.
\<close>

datatype node = File bytes | Dir "(string \<times> node) list"

text \<open>
  The exceptions the program can meet. \<open>OSError\<close> stands for all of its subclasses
  (\<open>FileNotFoundError\<close>, \<open>NotADirectoryError\<close>, \<open>IsADirectoryError\<close>,
  \<open>FileExistsError\<close>, \<open>PermissionError\<close>, \<open>shutil.SameFileError\<close>);
  \<open>DatabaseError\<close> for \<open>sqlite3.Error\<close>. The program catches them all as
  \<open>Exception\<close> and only prints them.
\<close>

datatype error = OSError | EOFError | DatabaseError

fun lookup :: "node \<Rightarrow> string list \<Rightarrow> node option" where
  "lookup n [] = Some n"
| "lookup (File _) (c # cs) = None"
| "lookup (Dir es) (c # cs) =
     (case map_of es c of None \<Rightarrow> None | Some child \<Rightarrow> lookup child cs)"

text \<open>\<open>os.makedirs(p, exist_ok=True)\<close> on components: every missing directory on the way
  is created empty; a regular file on the way (or at the end) makes it fail.\<close>

fun mkdirs :: "node \<Rightarrow> string list \<Rightarrow> node option" where
  "mkdirs (File _) cs = None"
| "mkdirs (Dir es) [] = Some (Dir es)"
| "mkdirs (Dir es) (c # cs) =
     (case mkdirs (case map_of es c of None \<Rightarrow> Dir [] | Some child \<Rightarrow> child) cs of
        None \<Rightarrow> None
      | Some child' \<Rightarrow> Some (Dir (AList.update c child' es)))"

text \<open>\<open>os.remove\<close> on components: only a regular file can be removed.\<close>

fun unlink :: "node \<Rightarrow> string list \<Rightarrow> node option" where
  "unlink n [] = None"
| "unlink (File _) (c # cs) = None"
| "unlink (Dir es) [c] =
     (case map_of es c of
        Some (File _) \<Rightarrow> Some (Dir (AList.delete c es))
      | _ \<Rightarrow> None)"
| "unlink (Dir es) (c # cs) =
     (case map_of es c of
        None \<Rightarrow> None
      | Some child \<Rightarrow>
          (case unlink child cs of
             None \<Rightarrow> None
           | Some child' \<Rightarrow> Some (Dir (AList.update c child' es))))"

text \<open>Opening a path for writing and storing \<open>data\<close>: the parent must be a directory,
  the path must not be one; an existing file is overwritten.\<close>

fun write_file :: "node \<Rightarrow> string list \<Rightarrow> bytes \<Rightarrow> node option" where
  "write_file n [] data = None"
| "write_file (File _) (c # cs) data = None"
| "write_file (Dir es) [c] data =
     (case map_of es c of
        Some (Dir _) \<Rightarrow> None
      | _ \<Rightarrow> Some (Dir (AList.update c (File data) es)))"
| "write_file (Dir es) (c # cs) data =
     (case map_of es c of
        None \<Rightarrow> None
      | Some child \<Rightarrow>
          (case write_file child cs data of
             None \<Rightarrow> None
           | Some child' \<Rightarrow> Some (Dir (AList.update c child' es))))"

subsection \<open>The calls of \<open>os\<close>, \<open>os.path\<close> and \<open>shutil\<close> the program makes\<close>

text \<open>The empty string names nothing: every call fails on it.\<close>

definition stat :: "node \<Rightarrow> string \<Rightarrow> node option" where
  "stat root p = (if p = [] then None else lookup root (components p))"

definition exists_path :: "node \<Rightarrow> string \<Rightarrow> bool" where
  "exists_path root p = (stat root p \<noteq> None)"

definition isfile :: "node \<Rightarrow> string \<Rightarrow> bool" where
  "isfile root p = (case stat root p of Some (File _) \<Rightarrow> True | _ \<Rightarrow> False)"

definition isdir :: "node \<Rightarrow> string \<Rightarrow> bool" where
  "isdir root p = (case stat root p of Some (Dir _) \<Rightarrow> True | _ \<Rightarrow> False)"

definition read_file :: "node \<Rightarrow> string \<Rightarrow> bytes option" where
  "read_file root p = (case stat root p of Some (File data) \<Rightarrow> Some data | _ \<Rightarrow> None)"

definition listdir :: "node \<Rightarrow> string \<Rightarrow> error + string list" where
  "listdir root p =
     (case stat root p of Some (Dir es) \<Rightarrow> Inr (map fst es) | _ \<Rightarrow> Inl OSError)"

definition makedirs :: "node \<Rightarrow> string \<Rightarrow> error + node" where
  "makedirs root p =
     (if p = [] then Inl OSError
      else (case mkdirs root (components p) of None \<Rightarrow> Inl OSError | Some root' \<Rightarrow> Inr root'))"

definition samefile :: "node \<Rightarrow> string \<Rightarrow> string \<Rightarrow> bool" where
  "samefile root p q =
     (exists_path root p \<and> exists_path root q \<and> components p = components q)"

text \<open>\<open>shutil.copy2(src, dst)\<close>: a destination that is a directory receives the copy under
  the source's base name. File metadata is not modelled.\<close>

definition copy2 :: "node \<Rightarrow> string \<Rightarrow> string \<Rightarrow> error + node" where
  "copy2 root src dst =
     (let dst' = (if isdir root dst then join dst (basename src) else dst) in
      if samefile root src dst' then Inl OSError
      else (case read_file root src of
              None \<Rightarrow> Inl OSError
            | Some data \<Rightarrow>
                (if dst' = [] then Inl OSError
                 else (case write_file root (components dst') data of
                         None \<Rightarrow> Inl OSError
                       | Some root' \<Rightarrow> Inr root'))))"

section \<open>The world the program runs in\<close>

text \<open>
  \<open>settings\<close> of \<open>app.core.config\<close> is not part of the source; its three directories are
  parameters.
\<close>

record config =
  DATA_DIR :: string
  UPLOAD_DIR :: string
  PDF_DIR :: string

text \<open>
  A value fetched from a column of the database, as \<open>sqlite3\<close> hands it to Python:
  \<open>None\<close>, an \<open>int\<close>, a \<open>str\<close> or \<open>bytes\<close> (a \<open>float\<close> from a REAL column is
  left out).
\<close>

datatype sql_value = SqlNull | SqlInteger int | SqlText string | SqlBlob bytes

text \<open>
  What \<open>sqlite3\<close> reads from the database file: the column \<open>audio_path\<close> of the rows of
  \<open>meetings\<close>, the column \<open>file_path\<close> of the rows of \<open>pdfs\<close>, and the first row of
  \<open>PRAGMA integrity_check\<close>. \<open>None\<close> means that the statement raises.
\<close>

record database =
  meetings :: "sql_value list option"
  pdfs :: "sql_value list option"
  integrity_check :: "string option"

record datetime =
  year :: nat
  month :: nat
  day :: nat
  hour :: nat
  minute :: nat
  second :: nat
  microsecond :: nat

text \<open>
  What the program prints, one constructor for each \<open>print\<close> of the source with the
  values it interpolates. \<open>Size\<close> carries the size in bytes (the source prints it in
  megabytes with two decimals). \<open>Prompt\<close> is the prompt of \<open>input\<close>.
\<close>

datatype message =
    DatabaseNotFound string
  | DatabaseStatus
  | Location string
  | Size nat
  | Meetings nat
  | PdfRecords nat
  | IntegrityCheck string
  | ErrorChecking error
  | BackedUpTo string
  | ErrorBackingUp error
  | FoundUploads nat
  | FoundPdfs nat
  | NoOrphans
  | Prompt
  | CleanupAborted
  | FailedToDelete string error
  | Deleted nat
  | ErrorCleaning error
  | Help

text \<open>
  \<open>readonly\<close> lists the objects (by components) that the operating system refuses to
  remove; \<open>now\<close> is what \<open>datetime.datetime.now()\<close> returns; \<open>stdin\<close> holds the lines
  still to be read, without their newline.
\<close>

record world =
  fs :: node
  readonly :: "string list list"
  db :: database
  now :: datetime
  stdin :: "string list"
  stdout :: "message list"

definition print :: "message \<Rightarrow> world \<Rightarrow> world" where
  "print m w = w\<lparr>stdout := stdout w @ [m]\<rparr>"

definition input :: "world \<Rightarrow> (error + string) \<times> world" where
  "input w =
     (let w' = print Prompt w in
      case stdin w' of
        [] \<Rightarrow> (Inl EOFError, w')
      | line # rest \<Rightarrow> (Inr line, w'\<lparr>stdin := rest\<rparr>))"

definition remove :: "world \<Rightarrow> string \<Rightarrow> error + world" where
  "remove w p =
     (if p = [] \<or> components p \<in> set (readonly w) then Inl OSError
      else (case unlink (fs w) (components p) of
              None \<Rightarrow> Inl OSError
            | Some root' \<Rightarrow> Inr (w\<lparr>fs := root'\<rparr>)))"

text \<open>\<open>sqlite3.connect\<close> followed by a statement: the path has to be a regular file.\<close>

definition connect :: "world \<Rightarrow> string \<Rightarrow> error + database" where
  "connect w p = (if isfile (fs w) p then Inr (db w) else Inl DatabaseError)"

definition getsize :: "node \<Rightarrow> string \<Rightarrow> error + nat" where
  "getsize root p =
     (case read_file root p of None \<Rightarrow> Inl OSError | Some data \<Rightarrow> Inr (length data))"

subsection \<open>Strings\<close>

text \<open>\<open>str.lower\<close> on ASCII letters; every other character is kept. Only \<open>Y\<close> and
  \<open>y\<close> lower to \<open>y\<close> in Python, so the comparison with \<open>y\<close> is the program's.\<close>

definition lower_char :: "char \<Rightarrow> char" where
  "lower_char c =
     (case map_of (zip ''ABCDEFGHIJKLMNOPQRSTUVWXYZ'' ''abcdefghijklmnopqrstuvwxyz'') c of
        None \<Rightarrow> c
      | Some l \<Rightarrow> l)"

definition lower :: "string \<Rightarrow> string" where
  "lower s = map lower_char s"

definition digit :: "nat \<Rightarrow> char" where
  "digit n = ''0123456789'' ! (n mod 10)"

definition pad2 :: "nat \<Rightarrow> string" where
  "pad2 n = [digit (n div 10), digit n]"

definition pad4 :: "nat \<Rightarrow> string" where
  "pad4 n = [digit (n div 1000), digit (n div 100), digit (n div 10), digit n]"

text \<open>\<open>strftime("%Y%m%d_%H%M%S")\<close>, for the years 1000 to 9999.\<close>

definition strftime :: "datetime \<Rightarrow> string" where
  "strftime t =
     pad4 (year t) @ pad2 (month t) @ pad2 (day t) @ ''_'' @
     pad2 (hour t) @ pad2 (minute t) @ pad2 (second t)"

text \<open>Python's truth value of a fetched column, and \<open>x in xs\<close> for a \<open>str\<close> \<open>x\<close>:
  a \<open>str\<close> equals no \<open>int\<close>, no \<open>bytes\<close> and not \<open>None\<close>.\<close>

fun truthy :: "sql_value \<Rightarrow> bool" where
  "truthy SqlNull = False"
| "truthy (SqlInteger i) = (i \<noteq> 0)"
| "truthy (SqlText s) = (s \<noteq> [])"
| "truthy (SqlBlob b) = (b \<noteq> [])"

definition py_in :: "string \<Rightarrow> sql_value list \<Rightarrow> bool" where
  "py_in x xs = (SqlText x \<in> set xs)"

section \<open>The program\<close>

definition db_path :: "config \<Rightarrow> string" where
  "db_path cfg = join (DATA_DIR cfg) ''meetings.db''"

subsection \<open>\<open>check_database\<close>\<close>

text \<open>The body of the \<open>try\<close>: an exception leaves with the world as printed so far.\<close>

definition check_body :: "config \<Rightarrow> world \<Rightarrow> (error + unit) \<times> world" where
  "check_body cfg w =
     (case connect w (db_path cfg) of
        Inl e \<Rightarrow> (Inl e, w)
      | Inr d \<Rightarrow>
     (case meetings d of
        None \<Rightarrow> (Inl DatabaseError, w)
      | Some mrows \<Rightarrow>
     (case pdfs d of
        None \<Rightarrow> (Inl DatabaseError, w)
      | Some prows \<Rightarrow>
     (case getsize (fs w) (db_path cfg) of
        Inl e \<Rightarrow> (Inl e, w)
      | Inr db_size \<Rightarrow>
     (let w1 = print (PdfRecords (length prows))
                (print (Meetings (length mrows))
                (print (Size db_size)
                (print (Location (db_path cfg))
                (print DatabaseStatus w))))
      in case integrity_check d of
           None \<Rightarrow> (Inl DatabaseError, w1)
         | Some integrity \<Rightarrow> (Inr (), print (IntegrityCheck integrity) w1))))))"

definition check_database :: "config \<Rightarrow> world \<Rightarrow> bool \<times> world" where
  "check_database cfg w =
     (if \<not> exists_path (fs w) (db_path cfg)
      then (False, print (DatabaseNotFound (db_path cfg)) w)
      else (case check_body cfg w of
              (Inr _, w') \<Rightarrow> (True, w')
            | (Inl e, w') \<Rightarrow> (False, print (ErrorChecking e) w')))"

subsection \<open>\<open>backup_database\<close>\<close>

definition backup_dir :: "config \<Rightarrow> string" where
  "backup_dir cfg = join (DATA_DIR cfg) ''backups''"

definition backup_path :: "config \<Rightarrow> datetime \<Rightarrow> string" where
  "backup_path cfg t = join (backup_dir cfg) (''meetings_'' @ strftime t @ ''.db'')"

definition backup_database :: "config \<Rightarrow> world \<Rightarrow> bool \<times> world" where
  "backup_database cfg w =
     (if \<not> exists_path (fs w) (db_path cfg)
      then (False, print (DatabaseNotFound (db_path cfg)) w)
      else (let timestamp = now w in
            case makedirs (fs w) (backup_dir cfg) of
              Inl e \<Rightarrow> (False, print (ErrorBackingUp e) w)
            | Inr root1 \<Rightarrow>
                (case copy2 root1 (db_path cfg) (backup_path cfg timestamp) of
                   Inl e \<Rightarrow> (False, print (ErrorBackingUp e) (w\<lparr>fs := root1\<rparr>))
                 | Inr root2 \<Rightarrow>
                     (True, print (BackedUpTo (backup_path cfg timestamp)) (w\<lparr>fs := root2\<rparr>)))))"

subsection \<open>\<open>clean_orphaned_files\<close>\<close>

text \<open>The loop over a directory listing (the same loop for uploads and for PDFs);
  \<open>acc\<close> is the list the source appends to.\<close>

fun scan :: "node \<Rightarrow> string \<Rightarrow> sql_value list \<Rightarrow> string list \<Rightarrow> string list \<Rightarrow> string list" where
  "scan root dir db_paths [] acc = acc"
| "scan root dir db_paths (file # rest) acc =
     (let file_path = join dir file in
      scan root dir db_paths rest
        (if isfile root file_path \<and> \<not> py_in file_path db_paths
         then acc @ [file_path] else acc))"

text \<open>The \<open>try\<close> body down to the two lists of orphaned files; nothing is printed and
  nothing is changed here, so an exception leaves with the world as it was.\<close>

definition find_orphans :: "config \<Rightarrow> world \<Rightarrow> error + (string list \<times> string list)" where
  "find_orphans cfg w =
     (case connect w (db_path cfg) of
        Inl e \<Rightarrow> Inl e
      | Inr d \<Rightarrow>
     (case meetings d of
        None \<Rightarrow> Inl DatabaseError
      | Some mrows \<Rightarrow>
     (case pdfs d of
        None \<Rightarrow> Inl DatabaseError
      | Some prows \<Rightarrow>
     (let db_audio_paths = filter truthy mrows;
          db_pdf_paths = filter truthy prows
      in case listdir (fs w) (UPLOAD_DIR cfg) of
           Inl e \<Rightarrow> Inl e
         | Inr unames \<Rightarrow>
        (let upload_files = scan (fs w) (UPLOAD_DIR cfg) db_audio_paths unames [] in
         case listdir (fs w) (PDF_DIR cfg) of
           Inl e \<Rightarrow> Inl e
         | Inr pnames \<Rightarrow>
             Inr (upload_files, scan (fs w) (PDF_DIR cfg) db_pdf_paths pnames []))))))"

text \<open>The deletion loop, with its own \<open>try\<close> around each \<open>os.remove\<close>.\<close>

fun delete_files :: "string list \<Rightarrow> world \<Rightarrow> nat \<Rightarrow> world \<times> nat" where
  "delete_files [] w deleted_count = (w, deleted_count)"
| "delete_files (file_path # rest) w deleted_count =
     (case remove w file_path of
        Inr w' \<Rightarrow> delete_files rest w' (deleted_count + 1)
      | Inl e \<Rightarrow> delete_files rest (print (FailedToDelete file_path e) w) deleted_count)"

definition clean_orphaned_files :: "config \<Rightarrow> world \<Rightarrow> bool \<times> world" where
  "clean_orphaned_files cfg w =
     (if \<not> exists_path (fs w) (db_path cfg)
      then (False, print (DatabaseNotFound (db_path cfg)) w)
      else (case find_orphans cfg w of
              Inl e \<Rightarrow> (False, print (ErrorCleaning e) w)
            | Inr (upload_files, pdf_files) \<Rightarrow>
               (let w1 = print (FoundPdfs (length pdf_files))
                          (print (FoundUploads (length upload_files)) w)
                in if upload_files = [] \<and> pdf_files = []
                   then (True, print NoOrphans w1)
                   else (case input w1 of
                           (Inl e, w2) \<Rightarrow> (False, print (ErrorCleaning e) w2)
                         | (Inr answer, w2) \<Rightarrow>
                             (if lower answer \<noteq> ''y''
                              then (False, print CleanupAborted w2)
                              else (case delete_files (upload_files @ pdf_files) w2 0 of
                                      (w3, deleted_count) \<Rightarrow>
                                        (True, print (Deleted deleted_count) w3)))))))"

subsection \<open>\<open>main\<close>\<close>

text \<open>
  The command line is a list of the three flags the parser declares, in the order and
  with the repetitions the user typed; \<open>store_true\<close> sets the flag's attribute.
  Other tokens (help, abbreviations, unknown arguments) are outside the model.
\<close>

datatype flag = CheckFlag | BackupFlag | CleanFlag

record args =
  check :: bool
  backup :: bool
  clean :: bool

fun store_true :: "flag \<Rightarrow> args \<Rightarrow> args" where
  "store_true CheckFlag a = a\<lparr>check := True\<rparr>"
| "store_true BackupFlag a = a\<lparr>backup := True\<rparr>"
| "store_true CleanFlag a = a\<lparr>clean := True\<rparr>"

fun parse_loop :: "flag list \<Rightarrow> args \<Rightarrow> args" where
  "parse_loop [] a = a"
| "parse_loop (f # rest) a = parse_loop rest (store_true f a)"

definition parse_args :: "flag list \<Rightarrow> args" where
  "parse_args argv = parse_loop argv \<lparr>check = False, backup = False, clean = False\<rparr>"

datatype outcome = Returned | Raised error

definition main :: "config \<Rightarrow> flag list \<Rightarrow> world \<Rightarrow> outcome \<times> world" where
  "main cfg argv w =
     (let a = parse_args argv in
      if \<not> (check a \<or> backup a \<or> clean a) then (Returned, print Help w)
      else (case makedirs (fs w) (DATA_DIR cfg) of
              Inl e \<Rightarrow> (Raised e, w)
            | Inr root1 \<Rightarrow>
               (let w1 = w\<lparr>fs := root1\<rparr>;
                    w2 = (if check a then snd (check_database cfg w1) else w1);
                    w3 = (if backup a then snd (backup_database cfg w2) else w2);
                    w4 = (if clean a then snd (clean_orphaned_files cfg w3) else w3)
                in (Returned, w4))))"

section \<open>Vocabulary of the specification\<close>

text \<open>
  What a path of components names in a tree: a regular file with its bytes, a
  directory, or nothing.
\<close>

datatype entry = RegularFile bytes | Directory

fun entry_of :: "node \<Rightarrow> entry" where
  "entry_of (File data) = RegularFile data"
| "entry_of (Dir es) = Directory"

definition shape :: "node \<Rightarrow> string list \<Rightarrow> entry option" where
  "shape root p = map_option entry_of (lookup root p)"

text \<open>
  The names an operating system gives to directory entries: not empty, without a
  separator, and neither \<open>.\<close> nor \<open>..\<close>; and no name twice in one directory.
\<close>

definition valid_name :: "string \<Rightarrow> bool" where
  "valid_name n = (n \<noteq> [] \<and> sep \<notin> set n \<and> n \<noteq> ''.'' \<and> n \<noteq> ''..'')"

definition proper_listing :: "string list \<Rightarrow> bool" where
  "proper_listing names = (distinct names \<and> list_all valid_name names)"

text \<open>The immediate entries of a directory that are regular files, by name.\<close>

fun is_regular :: "node \<Rightarrow> bool" where
  "is_regular (File _) = True"
| "is_regular (Dir _) = False"

definition file_entries :: "(string \<times> node) list \<Rightarrow> string list" where
  "file_entries es = map fst (filter (\<lambda>e. is_regular (snd e)) es)"



text \<open>The name of the backup file made at time \<open>t\<close>.\<close>

definition backup_name :: "datetime \<Rightarrow> string" where
  "backup_name t = ''meetings_'' @ strftime t @ ''.db''"

text \<open>An operation of \<open>main\<close> that runs when its flag was given, and the message an
  operation prints when the database file is missing.\<close>

definition run_if :: "bool \<Rightarrow> (world \<Rightarrow> bool \<times> world) \<Rightarrow> world \<Rightarrow> world" where
  "run_if requested operation w = (if requested then snd (operation w) else w)"

definition not_found_if :: "bool \<Rightarrow> config \<Rightarrow> message list" where
  "not_found_if requested cfg = (if requested then [DatabaseNotFound (db_path cfg)] else [])"

section \<open>A concrete installation\<close>

text \<open>
  A small world on which the theorems below are exercised: a database file under
  \<open>/data\<close>, four entries under \<open>/uploads\<close> (one of them a directory) and two under
  \<open>/pdfs\<close>. The table \<open>meetings\<close> refers to two of the uploads and has a null and an
  empty \<open>audio_path\<close>; \<open>pdfs\<close> refers to one of the PDF files.
\<close>

definition cfg0 :: config where
  "cfg0 = \<lparr>DATA_DIR = ''/data'', UPLOAD_DIR = ''/uploads'', PDF_DIR = ''/pdfs''\<rparr>"

definition t0 :: datetime where
  "t0 = \<lparr>year = 2024, month = 3, day = 9, hour = 7, minute = 5, second = 0,
          microsecond = 12\<rparr>"

definition db0 :: database where
  "db0 = \<lparr>meetings = Some [SqlText ''/uploads/a.wav'', SqlNull, SqlText ''/uploads/b.wav'',
                            SqlText []],
           pdfs = Some [SqlText ''/pdfs/r.pdf''],
           integrity_check = Some ''ok''\<rparr>"

definition root0 :: node where
  "root0 =
     Dir [(''data'', Dir [(''meetings.db'', File [1, 2, 3])]),
          (''uploads'', Dir [(''a.wav'', File []), (''b.wav'', File [7]),
                             (''c.wav'', File [9]), (''sub'', Dir [])]),
          (''pdfs'', Dir [(''r.pdf'', File [5]), (''old.pdf'', File [6])])]"

definition w0 :: world where
  "w0 = \<lparr>fs = root0, readonly = [], db = db0, now = t0, stdin = [''n''], stdout = []\<rparr>"

text \<open>The same installation with every file referred to by the database.\<close>

definition w_clean :: world where
  "w_clean =
     w0\<lparr>db := db0\<lparr>meetings := Some [SqlText ''/uploads/a.wav'', SqlText ''/uploads/b.wav'',
                                      SqlText ''/uploads/c.wav''],
                     pdfs := Some [SqlText ''/pdfs/r.pdf'', SqlText ''/pdfs/old.pdf'']\<rparr>\<rparr>"

text \<open>An installation whose \<open>PDF_DIR\<close> does not exist.\<close>

definition w_nopdf :: world where
  "w_nopdf =
     w0\<lparr>fs := Dir [(''data'', Dir [(''meetings.db'', File [1, 2, 3])]),
                    (''uploads'', Dir [(''c.wav'', File [9])])]\<rparr>"

text \<open>The operator answers \<open>Y\<close>, and the operating system refuses to remove
  \<open>/uploads/c.wav\<close>; \<open>root_after\<close> is the tree the cleanup then leaves.\<close>

definition w_yes :: world where
  "w_yes = w0\<lparr>stdin := [''Y''], readonly := [[''uploads'', ''c.wav'']]\<rparr>"

definition root_after :: node where
  "root_after =
     Dir [(''data'', Dir [(''meetings.db'', File [1, 2, 3])]),
          (''uploads'', Dir [(''a.wav'', File []), (''b.wav'', File [7]),
                             (''c.wav'', File [9]), (''sub'', Dir [])]),
          (''pdfs'', Dir [(''r.pdf'', File [5])])]"

text \<open>An installation where a directory already has the name of the next backup file,
  and the tree a backup leaves there; and the tree a backup of the first installation leaves.\<close>

definition w_bdir :: world where
  "w_bdir =
     w0\<lparr>fs := Dir [(''data'', Dir [(''meetings.db'', File [1, 2, 3]),
                                   (''backups'', Dir [(''meetings_20240309_070500.db'', Dir [])])])]\<rparr>"

definition root_bdir_after :: node where
  "root_bdir_after =
     Dir [(''data'', Dir [(''meetings.db'', File [1, 2, 3]),
                          (''backups'', Dir [(''meetings_20240309_070500.db'',
                                              Dir [(''meetings.db'', File [1, 2, 3])])])])]"

definition root_backed_up :: node where
  "root_backed_up =
     Dir [(''data'', Dir [(''meetings.db'', File [1, 2, 3]),
                          (''backups'', Dir [(''meetings_20240309_070500.db'', File [1, 2, 3])])]),
          (''uploads'', Dir [(''a.wav'', File []), (''b.wav'', File [7]),
                             (''c.wav'', File [9]), (''sub'', Dir [])]),
          (''pdfs'', Dir [(''r.pdf'', File [5]), (''old.pdf'', File [6])])]"

text \<open>An empty file system; and a configuration whose \<open>DATA_DIR\<close> lies below
  \<open>/srv\<close>, with a world where \<open>/srv\<close> is a regular file.\<close>

definition w_empty :: world where
  "w_empty = w0\<lparr>fs := Dir []\<rparr>"

definition cfg1 :: config where
  "cfg1 = \<lparr>DATA_DIR = ''/srv/app/data'', UPLOAD_DIR = ''/uploads'', PDF_DIR = ''/pdfs''\<rparr>"

definition w_srv :: world where
  "w_srv = w0\<lparr>fs := Dir [(''srv'', File [])]\<rparr>"

lemmas eval_defs =
  cfg0_def t0_def db0_def root0_def w0_def
  db_path_def backup_dir_def backup_path_def join_def sep_def components_def basename_def
  stat_def exists_path_def isfile_def isdir_def read_file_def listdir_def makedirs_def
  samefile_def copy2_def print_def input_def remove_def connect_def getsize_def
  lower_def lower_char_def digit_def pad2_def pad4_def strftime_def py_in_def
  find_orphans_def clean_orphaned_files_def check_database_def check_body_def
  backup_database_def parse_args_def main_def

section \<open>Auxiliary facts\<close>

lemma find_orphans_exists:
  "find_orphans cfg w = Inr r \<Longrightarrow> exists_path (fs w) (db_path cfg)"
  by (auto simp: find_orphans_def connect_def isfile_def exists_path_def
           split: sum.splits option.splits node.splits if_splits)

subsection \<open>Path strings\<close>

lemma split_sep_nonempty [simp]: "split_sep p \<noteq> []"
  by (induction p) (auto split: list.splits)

lemma split_sep_append: "split_sep (a @ sep # b) = split_sep a @ split_sep b"
  by (induction a) (auto split: list.splits)

lemma split_sep_name: "sep \<notin> set n \<Longrightarrow> split_sep n = [n]"
  by (induction n) auto

lemma components_Nil [simp]: "components [] = []"
  by (simp add: components_def)

lemma components_append: "components (a @ sep # b) = components a @ components b"
  by (simp add: components_def split_sep_append)

lemma components_join:
  assumes "b = [] \<or> hd b \<noteq> sep"
  shows "components (join a b) = components a @ components b"
proof (cases "a = [] \<or> last a = sep")
  case True
  show ?thesis
  proof (cases "a = []")
    case True
    with assms show ?thesis by (auto simp: join_def)
  next
    case False
    with True obtain a' where a: "a = a' @ [sep]"
      by (metis append_butlast_last_id)
    have "join a b = a' @ sep # b" using assms a by (auto simp: join_def)
    moreover have "components a = components a'"
      using components_append[of a' "[]"] a by simp
    ultimately show ?thesis by (simp add: components_append)
  qed
next
  case False
  with assms have "join a b = a @ sep # b" by (auto simp: join_def)
  then show ?thesis by (simp add: components_append)
qed

lemma components_name: "valid_name n \<Longrightarrow> components n = [n]"
  by (simp add: valid_name_def components_def split_sep_name)

lemma components_join_name:
  "valid_name n \<Longrightarrow> components (join a n) = components a @ [n]"
  using components_join[of n a] components_name[of n]
  by (cases n) (auto simp: valid_name_def)

lemma join_nonempty: "b \<noteq> [] \<Longrightarrow> join a b \<noteq> []"
  by (auto simp: join_def)

lemma basename_join_name: "sep \<notin> set n \<Longrightarrow> n \<noteq> [] \<Longrightarrow> basename (join a n) = n"
proof -
  assume n: "sep \<notin> set n" "n \<noteq> []"
  have tw: "\<And>x. takeWhile (\<lambda>c. c \<noteq> sep) (rev n @ sep # x) = rev n"
    using n by (simp add: takeWhile_append)
  have tw2: "\<And>x. x \<noteq> [] \<Longrightarrow> last x = sep \<Longrightarrow> takeWhile (\<lambda>c. c \<noteq> sep) (rev n @ rev x) = rev n"
  proof -
    fix x :: string assume "x \<noteq> []" "last x = sep"
    then obtain y where "x = y @ [sep]" by (metis append_butlast_last_id)
    then show "takeWhile (\<lambda>c. c \<noteq> sep) (rev n @ rev x) = rev n" using tw by simp
  qed
  have hd: "hd n \<noteq> sep" using n by (cases n) auto
  have tw0: "takeWhile (\<lambda>c. c \<noteq> sep) (rev n) = rev n"
    using n by (auto simp: takeWhile_eq_all_conv)
  show ?thesis
  proof (cases "a = []")
    case True then show ?thesis using n hd by (simp add: basename_def join_def tw0)
  next
    case False
    then show ?thesis using n hd by (auto simp: basename_def join_def tw tw2[of a])
  qed
qed

subsection \<open>What the file-system operations do to the tree\<close>

lemma shape_Nil [simp]: "shape n [] = Some (entry_of n)"
  by (simp add: shape_def)

lemma shape_File_Cons [simp]: "shape (File d) (c # cs) = None"
  by (simp add: shape_def)

lemma shape_Dir_Cons [simp]:
  "shape (Dir es) (c # cs) = (case map_of es c of None \<Rightarrow> None | Some child \<Rightarrow> shape child cs)"
  by (simp add: shape_def split: option.splits)

lemma map_of_update [simp]: "map_of (AList.update k v es) k' = (if k' = k then Some v else map_of es k')"
  by (simp add: update_conv')

lemma map_of_delete [simp]: "map_of (AList.delete k es) k' = (if k' = k then None else map_of es k')"
  by (simp add: delete_conv')

lemma update_same: "map_of es k = Some v \<Longrightarrow> AList.update k v es = es"
  by (induction es) (auto split: if_splits)

lemma shape_File: "shape (File d) p = (if p = [] then Some (RegularFile d) else None)"
  by (cases p) simp_all

lemma shape_unlink:
  "unlink root q = Some root' \<Longrightarrow> shape root' p = (if p = q then None else shape root p)"
proof (induction root q arbitrary: root' p rule: unlink.induct)
  case (1 n)
  then show ?case by simp
next
  case (2 d c cs)
  then show ?case by simp
next
  case (3 es c)
  from "3.prems" obtain d where d: "map_of es c = Some (File d)"
    and root': "root' = Dir (AList.delete c es)"
    by (auto split: option.splits node.splits)
  show ?case
  proof (cases p)
    case Nil
    then show ?thesis by (simp add: root')
  next
    case (Cons a list)
    then show ?thesis by (simp add: root' d shape_File)
  qed
next
  case (4 es c v va)
  from "4.prems" obtain child child' where child: "map_of es c = Some child"
    and child': "unlink child (v # va) = Some child'"
    and root': "root' = Dir (AList.update c child' es)"
    by (auto split: option.splits)
  have IH: "\<And>p'. shape child' p' = (if p' = v # va then None else shape child p')"
    using "4.IH"[OF child child'] by simp
  show ?case
  proof (cases p)
    case Nil
    then show ?thesis by (simp add: root')
  next
    case (Cons a list)
    then show ?thesis by (simp add: root' child IH)
  qed
qed

lemma unlink_regular:
  "shape root q = Some (RegularFile d) \<Longrightarrow> q \<noteq> [] \<Longrightarrow> unlink root q \<noteq> None"
proof (induction root q rule: unlink.induct)
  case (1 n)
  then show ?case by simp
next
  case (2 d c cs)
  then show ?case by simp
next
  case (3 es c)
  then show ?case by (auto split: option.splits node.splits)
next
  case (4 es c v va)
  then show ?case by (auto split: option.splits)
qed

lemma unlink_only_regular:
  "unlink root q = Some root' \<Longrightarrow> \<exists>d. shape root q = Some (RegularFile d)"
proof (induction root q arbitrary: root' rule: unlink.induct)
  case (1 n)
  then show ?case by simp
next
  case (2 d c cs)
  then show ?case by simp
next
  case (3 es c)
  then show ?case by (auto split: option.splits node.splits)
next
  case (4 es c v va)
  then show ?case by (auto split: option.splits)
qed

lemma shape_write_file:
  "write_file root q data = Some root' \<Longrightarrow>
   shape root' p = (if p = q then Some (RegularFile data) else shape root p)"
proof (induction root q data arbitrary: root' p rule: write_file.induct)
  case (1 n data)
  then show ?case by simp
next
  case (2 d c cs data)
  then show ?case by simp
next
  case (3 es c data)
  from "3.prems" have root': "root' = Dir (AList.update c (File data) es)"
    and old: "map_of es c = None \<or> (\<exists>d. map_of es c = Some (File d))"
    by (auto split: option.splits node.splits)
  show ?case
  proof (cases p)
    case Nil
    then show ?thesis by (simp add: root')
  next
    case (Cons a list)
    then show ?thesis using old by (auto simp: root' shape_File)
  qed
next
  case (4 es c v va data)
  from "4.prems" obtain child child' where child: "map_of es c = Some child"
    and child': "write_file child (v # va) data = Some child'"
    and root': "root' = Dir (AList.update c child' es)"
    by (auto split: option.splits)
  have IH: "\<And>p'. shape child' p' =
                  (if p' = v # va then Some (RegularFile data) else shape child p')"
    using "4.IH"[OF child child'] by simp
  show ?case
  proof (cases p)
    case Nil
    then show ?thesis by (simp add: root')
  next
    case (Cons a list)
    then show ?thesis by (simp add: root' child IH)
  qed
qed

lemma shape_empty_Dir: "shape (Dir []) p = (if p = [] then Some Directory else None)"
  by (cases p) simp_all

lemma shape_mkdirs:
  "mkdirs root q = Some root' \<Longrightarrow>
   shape root' p = (if prefix p q then Some Directory else shape root p)"
proof (induction root q arbitrary: root' p rule: mkdirs.induct)
  case (1 d cs)
  then show ?case by simp
next
  case (2 es)
  then show ?case by (cases p) auto
next
  case (3 es c cs)
  define ch where "ch = (case map_of es c of None \<Rightarrow> Dir [] | Some child \<Rightarrow> child)"
  from "3.prems" obtain ch' where ch': "mkdirs ch cs = Some ch'"
    and root': "root' = Dir (AList.update c ch' es)"
    by (auto simp: ch_def split: option.splits)
  have IH: "\<And>p'. shape ch' p' = (if prefix p' cs then Some Directory else shape ch p')"
    using "3.IH"[of ch'] ch' by (simp add: ch_def)
  show ?case
  proof (cases p)
    case Nil
    then show ?thesis by (simp add: root')
  next
    case (Cons a list)
    show ?thesis
    proof (cases "a = c")
      case False
      then show ?thesis by (simp add: Cons root')
    next
      case True
      have old: "\<not> prefix list cs \<Longrightarrow> shape (Dir es) (c # list) = shape ch list"
        by (cases "map_of es c") (auto simp: ch_def shape_empty_Dir)
      show ?thesis using True old by (simp add: Cons root' IH)
    qed
  qed
qed

lemma mkdirs_existing:
  "shape root q = Some Directory \<Longrightarrow> mkdirs root q = Some root"
proof (induction root q rule: mkdirs.induct)
  case (1 d cs)
  then show ?case by (cases cs) simp_all
next
  case (2 es)
  then show ?case by simp
next
  case (3 es c cs)
  then show ?case by (auto split: option.splits simp: update_same)
qed

subsection \<open>The scan of a directory\<close>

lemma lookup_append:
  "lookup root (p @ q) = (case lookup root p of None \<Rightarrow> None | Some n \<Rightarrow> lookup n q)"
proof (induction root p rule: lookup.induct)
  case (1 n)
  show ?case by simp
next
  case (2 d c cs)
  show ?case by simp
next
  case (3 es c cs)
  then show ?case by (cases "map_of es c") simp_all
qed

lemma scan_eq:
  "scan root dir db_paths names acc =
     acc @ [p \<leftarrow> map (join dir) names. isfile root p \<and> \<not> py_in p db_paths]"
  by (induction names arbitrary: acc) (simp_all add: Let_def)

lemma py_in_truthy: "p \<noteq> [] \<Longrightarrow> py_in p (filter truthy rows) = (SqlText p \<in> set rows)"
  by (auto simp: py_in_def)

lemma stat_join_name:
  assumes "stat root dir = Some (Dir es)" and "valid_name n"
  shows "stat root (join dir n) = map_of es n"
proof -
  from assms(1) have dir: "dir \<noteq> []" "lookup root (components dir) = Some (Dir es)"
    by (auto simp: stat_def split: if_splits)
  have ne: "join dir n \<noteq> []" using assms(2) by (simp add: join_nonempty valid_name_def)
  show ?thesis
    using dir(2) ne
    by (simp add: stat_def components_join_name[OF assms(2)] lookup_append split: option.splits)
qed

lemma isfile_entry:
  assumes "stat root dir = Some (Dir es)" and "distinct (map fst es)"
    and "valid_name (fst e)" and "e \<in> set es"
  shows "isfile root (join dir (fst e)) = is_regular (snd e)"
proof -
  have "map_of es (fst e) = Some (snd e)"
    using assms(2,4) by (cases e) simp
  then show ?thesis
    using stat_join_name[OF assms(1,3)] by (cases "snd e") (simp_all add: isfile_def)
qed

lemma scan_listing:
  assumes "stat root dir = Some (Dir es)" and "proper_listing (map fst es)"
  shows "scan root dir (filter truthy rows) (map fst es) [] =
           [p \<leftarrow> map (join dir) (file_entries es). SqlText p \<notin> set rows]"
proof -
  have d: "distinct (map fst es)" and v: "\<And>e. e \<in> set es \<Longrightarrow> valid_name (fst e)"
    using assms(2) by (auto simp: proper_listing_def list_all_iff)
  have "\<And>e. e \<in> set es \<Longrightarrow>
          (isfile root (join dir (fst e)) \<and> \<not> py_in (join dir (fst e)) (filter truthy rows))
          = (is_regular (snd e) \<and> SqlText (join dir (fst e)) \<notin> set rows)"
    using isfile_entry[OF assms(1) d] v
    by (simp add: py_in_truthy join_nonempty valid_name_def)
  then have "filter (\<lambda>e. isfile root (join dir (fst e)) \<and> \<not> py_in (join dir (fst e)) (filter truthy rows)) es
           = filter (\<lambda>e. is_regular (snd e) \<and> SqlText (join dir (fst e)) \<notin> set rows) es"
    by (intro filter_cong) auto
  then show ?thesis
    by (simp add: scan_eq file_entries_def filter_map comp_def)
qed


subsection \<open>The database is only read\<close>






subsection \<open>The deletion loop\<close>

lemma shape_None_iff: "shape root p = None \<longleftrightarrow> lookup root p = None"
  by (simp add: shape_def)

lemma remove_Inr:
  assumes "remove w p = Inr w'"
  shows "p \<noteq> []" and "components p \<notin> set (readonly w)"
    and "\<exists>d. shape (fs w) (components p) = Some (RegularFile d)"
    and "w' = w\<lparr>fs := fs w'\<rparr>"
    and "\<And>q. shape (fs w') q = (if q = components p then None else shape (fs w) q)"
proof -
  from assms obtain root' where p: "p \<noteq> []" "components p \<notin> set (readonly w)"
    and u: "unlink (fs w) (components p) = Some root'" and w': "w' = w\<lparr>fs := root'\<rparr>"
    by (auto simp: remove_def split: if_splits option.splits)
  show "p \<noteq> []" "components p \<notin> set (readonly w)" by (fact p)+
  show "\<exists>d. shape (fs w) (components p) = Some (RegularFile d)"
    by (rule unlink_only_regular[OF u])
  show "w' = w\<lparr>fs := fs w'\<rparr>" by (simp add: w')
  show "\<And>q. shape (fs w') q = (if q = components p then None else shape (fs w) q)"
    using shape_unlink[OF u] by (simp add: w')
qed

lemma remove_succeeds:
  assumes "p \<noteq> []" and "components p \<noteq> []" and "components p \<notin> set (readonly w)"
    and "shape (fs w) (components p) = Some (RegularFile d)"
  shows "\<exists>w'. remove w p = Inr w'"
  using assms unlink_regular[OF assms(4,2)]
  by (auto simp: remove_def)

lemma remove_Inl: "remove w p = Inl e \<Longrightarrow> e = OSError"
  by (auto simp: remove_def split: if_splits option.splits)

lemma delete_files_summary:
  "delete_files files w n = (w', n') \<Longrightarrow>
   \<exists>F R. w' = w\<lparr>fs := fs w', stdout := stdout w @ map (\<lambda>p. FailedToDelete p OSError) F\<rparr>
        \<and> subseq F files
        \<and> n' + length F = n + length files
        \<and> finite R \<and> n' = n + card R
        \<and> R \<subseteq> components ` set files - set (readonly w)
        \<and> (\<forall>q. shape (fs w') q = (if q \<in> R then None else shape (fs w) q))
        \<and> (\<forall>q\<in>R. \<exists>d. shape (fs w) q = Some (RegularFile d))
        \<and> (\<forall>p\<in>set files. components p \<in> set (readonly w) \<longrightarrow> p \<in> set F)
        \<and> (\<forall>p\<in>set files. p \<noteq> [] \<and> components p \<noteq> [] \<and> components p \<notin> set (readonly w)
               \<and> (\<exists>d. shape (fs w) (components p) = Some (RegularFile d))
               \<longrightarrow> components p \<in> R)"
proof (induction files arbitrary: w n)
  case Nil
  then have "w' = w" "n' = n" by simp_all
  then show ?case
    by (intro exI[of _ "[]"] exI[of _ "{}"]) simp
next
  case (Cons p files)
  show ?case
  proof (cases "remove w p")
    case (Inl e)
    then have e: "e = OSError" by (rule remove_Inl)
    define w1 where "w1 = print (FailedToDelete p OSError) w"
    have w1: "fs w1 = fs w" "readonly w1 = readonly w"
      "stdout w1 = stdout w @ [FailedToDelete p OSError]"
      by (simp_all add: w1_def print_def)
    from Cons.prems Inl e have "delete_files files w1 n = (w', n')"
      by (simp add: w1_def)
    from Cons.IH[OF this] obtain F R where
      a: "w' = w1\<lparr>fs := fs w', stdout := stdout w1 @ map (\<lambda>p. FailedToDelete p OSError) F\<rparr>"
      and b: "subseq F files" and c: "n' + length F = n + length files"
      and d: "finite R" "n' = n + card R"
      and r: "R \<subseteq> components ` set files - set (readonly w1)"
      and s: "\<forall>q. shape (fs w') q = (if q \<in> R then None else shape (fs w1) q)"
      and t: "\<forall>q\<in>R. \<exists>d. shape (fs w1) q = Some (RegularFile d)"
      and u: "\<forall>p\<in>set files. components p \<in> set (readonly w1) \<longrightarrow> p \<in> set F"
      and v: "\<forall>p\<in>set files. p \<noteq> [] \<and> components p \<noteq> [] \<and> components p \<notin> set (readonly w1)
               \<and> (\<exists>d. shape (fs w1) (components p) = Some (RegularFile d))
               \<longrightarrow> components p \<in> R"
      by blast
    have nop: "\<not> (p \<noteq> [] \<and> components p \<noteq> [] \<and> components p \<notin> set (readonly w)
               \<and> (\<exists>d. shape (fs w) (components p) = Some (RegularFile d)))"
      using remove_succeeds[of p w] Inl by auto
    have a': "w' = w\<lparr>fs := fs w', stdout := stdout w @ map (\<lambda>p. FailedToDelete p OSError) (p # F)\<rparr>"
      using a by (simp add: w1_def print_def)
    show ?thesis
    proof (intro exI[of _ "p # F"] exI[of _ R] conjI)
      show "w' = w\<lparr>fs := fs w', stdout := stdout w @ map (\<lambda>p. FailedToDelete p OSError) (p # F)\<rparr>"
        by (fact a')
      show "subseq (p # F) (p # files)" using b by simp
      show "n' + length (p # F) = n + length (p # files)" using c by simp
      show "finite R" "n' = n + card R" by (fact d)+
      show "R \<subseteq> components ` set (p # files) - set (readonly w)" using r w1 by auto
      show "\<forall>q. shape (fs w') q = (if q \<in> R then None else shape (fs w) q)" using s w1 by simp
      show "\<forall>q\<in>R. \<exists>d. shape (fs w) q = Some (RegularFile d)" using t w1 by simp
      show "\<forall>p'\<in>set (p # files). components p' \<in> set (readonly w) \<longrightarrow> p' \<in> set (p # F)"
        using u w1 by auto
      show "\<forall>p'\<in>set (p # files). p' \<noteq> [] \<and> components p' \<noteq> [] \<and> components p' \<notin> set (readonly w)
               \<and> (\<exists>d. shape (fs w) (components p') = Some (RegularFile d))
               \<longrightarrow> components p' \<in> R"
        using v w1 nop by auto
    qed
  next
    case (Inr w1)
    note rm = remove_Inr[OF Inr]
    have w1: "readonly w1 = readonly w" "stdout w1 = stdout w"
      using rm(4) by (metis world.select_convs world.surjective world.update_convs(1))+
    from Cons.prems Inr have "delete_files files w1 (n + 1) = (w', n')" by simp
    from Cons.IH[OF this] obtain F R where
      a: "w' = w1\<lparr>fs := fs w', stdout := stdout w1 @ map (\<lambda>p. FailedToDelete p OSError) F\<rparr>"
      and b: "subseq F files" and c: "n' + length F = n + 1 + length files"
      and d: "finite R" "n' = n + 1 + card R"
      and r: "R \<subseteq> components ` set files - set (readonly w1)"
      and s: "\<forall>q. shape (fs w') q = (if q \<in> R then None else shape (fs w1) q)"
      and t: "\<forall>q\<in>R. \<exists>d. shape (fs w1) q = Some (RegularFile d)"
      and u: "\<forall>p\<in>set files. components p \<in> set (readonly w1) \<longrightarrow> p \<in> set F"
      and v: "\<forall>p\<in>set files. p \<noteq> [] \<and> components p \<noteq> [] \<and> components p \<notin> set (readonly w1)
               \<and> (\<exists>d. shape (fs w1) (components p) = Some (RegularFile d))
               \<longrightarrow> components p \<in> R"
      by blast
    have notin: "components p \<notin> R" using t rm(5) by auto
    have a': "w' = w\<lparr>fs := fs w', stdout := stdout w @ map (\<lambda>p. FailedToDelete p OSError) F\<rparr>"
      using a rm(4) by (metis w1(2) world.update_convs(1) world.surjective world.update_convs(6))
    show ?thesis
    proof (intro exI[of _ F] exI[of _ "insert (components p) R"] conjI)
      show "w' = w\<lparr>fs := fs w', stdout := stdout w @ map (\<lambda>p. FailedToDelete p OSError) F\<rparr>"
        by (fact a')
      show "subseq F (p # files)" using b by (rule list_emb_Cons)
      show "n' + length F = n + length (p # files)" using c by simp
      show "finite (insert (components p) R)" using d by simp
      show "n' = n + card (insert (components p) R)" using d notin by simp
      show "insert (components p) R \<subseteq> components ` set (p # files) - set (readonly w)"
        using r w1 rm(2) by auto
      show "\<forall>q. shape (fs w') q = (if q \<in> insert (components p) R then None else shape (fs w) q)"
        using s rm(5) by simp
      show "\<forall>q\<in>insert (components p) R. \<exists>d. shape (fs w) q = Some (RegularFile d)"
        using t rm(3,5) notin by (metis insertE)
      show "\<forall>p'\<in>set (p # files). components p' \<in> set (readonly w) \<longrightarrow> p' \<in> set F"
        using u w1 rm(2) by auto
      show "\<forall>p'\<in>set (p # files). p' \<noteq> [] \<and> components p' \<noteq> [] \<and> components p' \<notin> set (readonly w)
               \<and> (\<exists>d. shape (fs w) (components p') = Some (RegularFile d))
               \<longrightarrow> components p' \<in> insert (components p) R"
        using v w1 rm(5) by auto
    qed
  qed
qed

lemma isfile_shape:
  "isfile root x \<longleftrightarrow> x \<noteq> [] \<and> (\<exists>d. shape root (components x) = Some (RegularFile d))"
proof (cases "x = []")
  case True
  then show ?thesis by (simp add: isfile_def stat_def)
next
  case False
  show ?thesis
  proof (cases "lookup root (components x)")
    case None
    then show ?thesis using False by (simp add: isfile_def stat_def shape_def)
  next
    case (Some n)
    then show ?thesis using False by (cases n) (simp_all add: isfile_def stat_def shape_def)
  qed
qed

lemma exists_path_shape:
  "exists_path root x \<longleftrightarrow> x \<noteq> [] \<and> shape root (components x) \<noteq> None"
  by (simp add: exists_path_def stat_def shape_def)

lemma find_orphans_isfile:
  assumes "find_orphans cfg w = Inr (u, p)" and "x \<in> set (u @ p)"
  shows "isfile (fs w) x"
  using assms
  by (auto simp: find_orphans_def scan_eq Let_def split: sum.splits option.splits)

lemma lookup_Dir_root: "lookup root cs = Some (Dir es) \<Longrightarrow> \<exists>es'. root = Dir es'"
  by (cases root; cases cs) simp_all

lemma find_orphans_root:
  assumes "find_orphans cfg w = Inr r"
  shows "\<exists>es. fs w = Dir es"
proof -
  from assms obtain names where "listdir (fs w) (UPLOAD_DIR cfg) = Inr names"
    by (auto simp: find_orphans_def Let_def split: sum.splits option.splits)
  then obtain es where "lookup (fs w) (components (UPLOAD_DIR cfg)) = Some (Dir es)"
    by (auto simp: listdir_def stat_def split: option.splits node.splits if_splits)
  then show ?thesis by (rule lookup_Dir_root)
qed

subsection \<open>The paths of the backup\<close>

lemma digit_not_sep: "digit n \<noteq> CHR ''/''"
proof -
  have "n mod 10 < length ''0123456789''" by simp
  then have "digit n \<in> set ''0123456789''" unfolding digit_def by (rule nth_mem)
  then show ?thesis by auto
qed

lemma strftime_no_sep: "sep \<notin> set (strftime t)"
  by (simp add: strftime_def pad2_def pad4_def sep_def digit_not_sep digit_not_sep[symmetric])

lemma valid_backup_name: "valid_name (backup_name t)"
  using strftime_no_sep[of t] by (auto simp: valid_name_def backup_name_def sep_def)

lemma valid_fixed_names: "valid_name ''meetings.db''" "valid_name ''backups''"
  by (simp_all add: valid_name_def sep_def)

lemma components_db_path: "components (db_path cfg) = components (DATA_DIR cfg) @ [''meetings.db'']"
  by (simp add: db_path_def components_join_name valid_fixed_names)

lemma components_backup_dir: "components (backup_dir cfg) = components (DATA_DIR cfg) @ [''backups'']"
  by (simp add: backup_dir_def components_join_name valid_fixed_names)

lemma components_backup_path:
  "components (backup_path cfg t) = components (DATA_DIR cfg) @ [''backups'', backup_name t]"
  using components_join_name[OF valid_backup_name, of "backup_dir cfg" t]
  by (simp add: backup_path_def backup_name_def components_backup_dir)

lemma nonempty_paths:
  "db_path cfg \<noteq> []" "backup_dir cfg \<noteq> []" "backup_path cfg t \<noteq> []"
  by (simp_all add: db_path_def backup_dir_def backup_path_def join_nonempty)

lemma basename_db_path: "basename (db_path cfg) = ''meetings.db''"
  by (simp add: db_path_def basename_join_name sep_def)

lemma isdir_shape:
  "isdir root x \<longleftrightarrow> x \<noteq> [] \<and> shape root (components x) = Some Directory"
proof (cases "x = []")
  case True
  then show ?thesis by (simp add: isdir_def stat_def)
next
  case False
  show ?thesis
  proof (cases "lookup root (components x)")
    case None
    then show ?thesis using False by (simp add: isdir_def stat_def shape_def)
  next
    case (Some n)
    then show ?thesis using False by (cases n) (simp_all add: isdir_def stat_def shape_def)
  qed
qed

lemma read_file_shape:
  "read_file root x = Some d \<longleftrightarrow> x \<noteq> [] \<and> shape root (components x) = Some (RegularFile d)"
proof (cases "x = []")
  case True
  then show ?thesis by (simp add: read_file_def stat_def)
next
  case False
  show ?thesis
  proof (cases "lookup root (components x)")
    case None
    then show ?thesis using False by (simp add: read_file_def stat_def shape_def)
  next
    case (Some n)
    then show ?thesis using False by (cases n) (simp_all add: read_file_def stat_def shape_def)
  qed
qed

lemma makedirs_Inr:
  assumes "makedirs root p = Inr root'"
  shows "p \<noteq> []"
    and "\<And>q. shape root' q = (if prefix q (components p) then Some Directory else shape root q)"
proof -
  from assms have p: "p \<noteq> []" and m: "mkdirs root (components p) = Some root'"
    by (auto simp: makedirs_def split: if_splits option.splits)
  show "p \<noteq> []" by (fact p)
  show "\<And>q. shape root' q = (if prefix q (components p) then Some Directory else shape root q)"
    using shape_mkdirs[OF m] by simp
qed

lemma makedirs_existing: "isdir root p \<Longrightarrow> makedirs root p = Inr root"
  by (simp add: isdir_shape makedirs_def mkdirs_existing)

lemma copy2_Inr:
  assumes "copy2 root src dst = Inr root'"
  shows "\<exists>data. read_file root src = Some data
     \<and> (if isdir root dst then join dst (basename src) else dst) \<noteq> []
     \<and> (\<forall>q. shape root' q =
          (if q = components (if isdir root dst then join dst (basename src) else dst)
           then Some (RegularFile data) else shape root q))"
proof -
  let ?dst = "if isdir root dst then join dst (basename src) else dst"
  from assms obtain data where r: "read_file root src = Some data" and ne: "?dst \<noteq> []"
    and wf: "write_file root (components ?dst) data = Some root'"
    by (auto simp: copy2_def Let_def split: if_splits option.splits)
  show ?thesis using r ne shape_write_file[OF wf] by blast
qed

lemma backup_path0: "backup_path cfg0 t0 = ''/data/backups/meetings_20240309_070500.db''"
  by (simp add: eval_defs)

lemma backup_w_bdir:
  "backup_database cfg0 w_bdir =
     (True, w_bdir\<lparr>fs := root_bdir_after,
                   stdout := [BackedUpTo ''/data/backups/meetings_20240309_070500.db'']\<rparr>)"
proof -
  have e: "exists_path (fs w_bdir) (db_path cfg0)"
    by (simp add: w_bdir_def eval_defs)
  have n: "now w_bdir = t0" "stdout w_bdir = []" by (simp_all add: w_bdir_def w0_def)
  have m: "makedirs (fs w_bdir) (backup_dir cfg0) = Inr (fs w_bdir)"
    by (simp add: w_bdir_def eval_defs)
  have c: "copy2 (fs w_bdir) (db_path cfg0) ''/data/backups/meetings_20240309_070500.db''
             = Inr root_bdir_after"
    by (simp add: w_bdir_def root_bdir_after_def eval_defs)
  show ?thesis
    by (simp add: backup_database_def e n m backup_path0 c print_def)
qed

subsection \<open>\<open>main\<close>\<close>

lemma parse_loop_fields:
  "check (parse_loop argv a) = (check a \<or> CheckFlag \<in> set argv)"
  "backup (parse_loop argv a) = (backup a \<or> BackupFlag \<in> set argv)"
  "clean (parse_loop argv a) = (clean a \<or> CleanFlag \<in> set argv)"
proof (induction argv arbitrary: a)
  case Nil
  { case 1 show ?case by simp }
  { case 2 show ?case by simp }
  { case 3 show ?case by simp }
next
  case (Cons f argv)
  { case 1 show ?case by (cases f) (auto simp: Cons.IH) }
  { case 2 show ?case by (cases f) (auto simp: Cons.IH) }
  { case 3 show ?case by (cases f) (auto simp: Cons.IH) }
qed

lemma parse_args_fields:
  "check (parse_args argv) = (CheckFlag \<in> set argv)"
  "backup (parse_args argv) = (BackupFlag \<in> set argv)"
  "clean (parse_args argv) = (CleanFlag \<in> set argv)"
  by (simp_all add: parse_args_def parse_loop_fields)

lemma some_flag: "(CheckFlag \<in> set argv \<or> BackupFlag \<in> set argv \<or> CleanFlag \<in> set argv) = (argv \<noteq> [])"
proof (cases argv)
  case Nil
  then show ?thesis by simp
next
  case (Cons f rest)
  then show ?thesis by (cases f) auto
qed

lemma main_eq:
  "main cfg argv w =
     (if argv = [] then (Returned, print Help w)
      else (case makedirs (fs w) (DATA_DIR cfg) of
              Inl e \<Rightarrow> (Raised e, w)
            | Inr root1 \<Rightarrow>
                (Returned,
                 run_if (CleanFlag \<in> set argv) (clean_orphaned_files cfg)
                   (run_if (BackupFlag \<in> set argv) (backup_database cfg)
                     (run_if (CheckFlag \<in> set argv) (check_database cfg)
                       (w\<lparr>fs := root1\<rparr>))))))"
proof (cases "argv = []")
  case True
  then show ?thesis by (simp add: main_def Let_def parse_args_fields)
next
  case False
  then have "CheckFlag \<in> set argv \<or> BackupFlag \<in> set argv \<or> CleanFlag \<in> set argv"
    by (simp add: some_flag)
  then show ?thesis using False
    by (auto simp: main_def Let_def parse_args_fields run_if_def split: sum.splits)
qed

lemma check_database_fs: "fs (snd (check_database cfg w)) = fs w"
  by (simp add: check_database_def check_body_def print_def Let_def
           split: sum.splits option.splits prod.splits)

lemma delete_files_keeps_dirs:
  assumes "delete_files files w n = (w', n')" and "shape (fs w) q = Some Directory"
  shows "shape (fs w') q = Some Directory"
proof -
  from delete_files_summary[OF assms(1)] obtain R where
    s: "\<forall>q. shape (fs w') q = (if q \<in> R then None else shape (fs w) q)"
    and t: "\<forall>q\<in>R. \<exists>d. shape (fs w) q = Some (RegularFile d)"
    by blast
  from t assms(2) have "q \<notin> R" by auto
  with s assms(2) show ?thesis by simp
qed

lemma clean_keeps_dirs:
  assumes "isdir (fs w) x"
  shows "isdir (fs (snd (clean_orphaned_files cfg w))) x"
proof -
  from assms have x: "x \<noteq> []" and d: "shape (fs w) (components x) = Some Directory"
    by (simp_all add: isdir_shape)
  have "shape (fs (snd (clean_orphaned_files cfg w))) (components x) = Some Directory"
  proof (cases "find_orphans cfg w")
    case (Inl e)
    then show ?thesis using d by (simp add: clean_orphaned_files_def print_def)
  next
    case (Inr r)
    obtain u p where r: "r = (u, p)" by (cases r)
    define w1 where "w1 = print (FoundPdfs (length p)) (print (FoundUploads (length u)) w)"
    obtain a w2 where i: "input w1 = (a, w2)" by (cases "input w1")
    have w2: "fs w2 = fs w"
      using i by (auto simp: input_def w1_def print_def Let_def split: list.splits)
    obtain w3 n where df: "delete_files (u @ p) w2 0 = (w3, n)"
      by (cases "delete_files (u @ p) w2 0")
    have w3: "shape (fs w3) (components x) = Some Directory"
      using delete_files_keeps_dirs[OF df] d w2 by simp
    have w1': "print (FoundPdfs (length p)) (print (FoundUploads (length u)) w) = w1"
      by (simp add: w1_def)
    have f1: "fs w1 = fs w" by (simp add: w1_def print_def)
    show ?thesis
      using Inr r d w2 w3 f1
      by (cases a) (simp_all add: clean_orphaned_files_def Let_def w1' i df, simp_all add: print_def)
  qed
  with x show ?thesis by (simp add: isdir_shape)
qed

lemma backup_keeps_data_dir:
  assumes "isdir (fs w) (DATA_DIR cfg)"
  shows "isdir (fs (snd (backup_database cfg w))) (DATA_DIR cfg)"
proof -
  let ?cD = "components (DATA_DIR cfg)"
  from assms have x: "DATA_DIR cfg \<noteq> []" and d: "shape (fs w) ?cD = Some Directory"
    by (simp_all add: isdir_shape)
  have "shape (fs (snd (backup_database cfg w))) ?cD = Some Directory"
  proof (cases "makedirs (fs w) (backup_dir cfg)")
    case (Inl e)
    then show ?thesis using d by (simp add: backup_database_def print_def Let_def)
  next
    case (Inr root1)
    have d1: "shape root1 ?cD = Some Directory"
      using makedirs_Inr(2)[OF Inr] d by simp
    show ?thesis
    proof (cases "copy2 root1 (db_path cfg) (backup_path cfg (now w))")
      case (Inl e)
      then show ?thesis using Inr d d1 by (simp add: backup_database_def print_def Let_def)
    next
      case c: (Inr root2)
      let ?dst = "if isdir root1 (backup_path cfg (now w))
                  then join (backup_path cfg (now w)) (basename (db_path cfg))
                  else backup_path cfg (now w)"
      from copy2_Inr[OF c] obtain data where
        s2: "\<And>q. shape root2 q =
               (if q = components ?dst then Some (RegularFile data) else shape root1 q)"
        by blast
      have "components ?dst \<noteq> ?cD"
        by (simp add: basename_db_path components_backup_path components_join_name
                      valid_fixed_names)
      then have "shape root2 ?cD = Some Directory" using s2 d1 by simp
      then show ?thesis using Inr c d by (simp add: backup_database_def print_def Let_def)
    qed
  qed
  with x show ?thesis by (simp add: isdir_shape)
qed

lemma makedirs_isdir: "makedirs root p = Inr root' \<Longrightarrow> isdir root' p"
  using makedirs_Inr[of root p root'] by (simp add: isdir_shape)

lemma makedirs_keeps_db_absent:
  assumes "makedirs root (DATA_DIR cfg) = Inr root'" and "\<not> exists_path root (db_path cfg)"
  shows "\<not> exists_path root' (db_path cfg)"
  using assms(2) makedirs_Inr(2)[OF assms(1)]
  by (simp add: exists_path_shape components_db_path)

lemma not_found:
  assumes "\<not> exists_path (fs w) (db_path cfg)"
  shows "check_database cfg w = (False, print (DatabaseNotFound (db_path cfg)) w)"
    and "backup_database cfg w = (False, print (DatabaseNotFound (db_path cfg)) w)"
    and "clean_orphaned_files cfg w = (False, print (DatabaseNotFound (db_path cfg)) w)"
  using assms
  by (simp_all add: check_database_def backup_database_def clean_orphaned_files_def)

subsection \<open>The reference lists\<close>





section \<open>The claims\<close>

text \<open>
  C1. On a run of \<open>clean_orphaned_files\<close> that gets as far as the two lists of orphaned
  files, with \<open>UPLOAD_DIR\<close> and \<open>PDF_DIR\<close> directories whose listings are proper
  (distinct, valid names): the orphaned uploads are, in listing order, the joined paths
  of the immediate regular-file entries of \<open>UPLOAD_DIR\<close> that are not an \<open>audio_path\<close>
  value of \<open>meetings\<close>, and the orphaned PDFs those of \<open>PDF_DIR\<close> that are not a
  \<open>file_path\<close> value of \<open>pdfs\<close>. As sets, each is the difference of the directory's
  files and its own table's column; a path is in the column when a text value equals it.
\<close>

theorem orphans_are_set_difference:
  assumes "find_orphans cfg w = Inr (upload_files, pdf_files)"
    and "meetings (db w) = Some mrows" and "pdfs (db w) = Some prows"
    and "stat (fs w) (UPLOAD_DIR cfg) = Some (Dir ues)"
    and "stat (fs w) (PDF_DIR cfg) = Some (Dir pes)"
    and "proper_listing (map fst ues)" and "proper_listing (map fst pes)"
  shows "upload_files =
           [p \<leftarrow> map (join (UPLOAD_DIR cfg)) (file_entries ues). SqlText p \<notin> set mrows]
       \<and> pdf_files =
           [p \<leftarrow> map (join (PDF_DIR cfg)) (file_entries pes). SqlText p \<notin> set prows]
       \<and> set upload_files =
           join (UPLOAD_DIR cfg) ` set (file_entries ues) - {p. SqlText p \<in> set mrows}
       \<and> set pdf_files =
           join (PDF_DIR cfg) ` set (file_entries pes) - {p. SqlText p \<in> set prows}"
proof -
  have u: "upload_files = scan (fs w) (UPLOAD_DIR cfg) (filter truthy mrows) (map fst ues) []"
    and p: "pdf_files = scan (fs w) (PDF_DIR cfg) (filter truthy prows) (map fst pes) []"
    using assms(1-5)
    by (auto simp: find_orphans_def connect_def listdir_def split: if_splits)
  have u': "upload_files =
           [p \<leftarrow> map (join (UPLOAD_DIR cfg)) (file_entries ues). SqlText p \<notin> set mrows]"
    unfolding u by (rule scan_listing[OF assms(4,6)])
  have p': "pdf_files =
           [p \<leftarrow> map (join (PDF_DIR cfg)) (file_entries pes). SqlText p \<notin> set prows]"
    unfolding p by (rule scan_listing[OF assms(5,7)])
  have su: "set upload_files =
           join (UPLOAD_DIR cfg) ` set (file_entries ues) - {p. SqlText p \<in> set mrows}"
    unfolding u' by auto
  have sp: "set pdf_files =
           join (PDF_DIR cfg) ` set (file_entries pes) - {p. SqlText p \<in> set prows}"
    unfolding p' by auto
  from u' p' su sp show ?thesis by blast
qed

theorem orphans_are_set_difference_witness:
  "find_orphans cfg0 w0 = Inr ([''/uploads/c.wav''], [''/pdfs/old.pdf'']) \<and>
   proper_listing [''a.wav'', ''b.wav'', ''c.wav'', ''sub''] \<and>
   proper_listing [''r.pdf'', ''old.pdf''] \<and>
   [''/uploads/c.wav''] =
     [p \<leftarrow> map (join ''/uploads'') [''a.wav'', ''b.wav'', ''c.wav''].
        SqlText p \<notin> {SqlText ''/uploads/a.wav'', SqlNull, SqlText ''/uploads/b.wav'', SqlText []}] \<and>
   [''/pdfs/old.pdf''] =
     [p \<leftarrow> map (join ''/pdfs'') [''r.pdf'', ''old.pdf'']. SqlText p \<notin> {SqlText ''/pdfs/r.pdf''}]"
proof -
  let ?ues = "[(''a.wav'', File []), (''b.wav'', File [7]), (''c.wav'', File [9]), (''sub'', Dir [])]"
  let ?pes = "[(''r.pdf'', File [5]), (''old.pdf'', File [6])]"
  let ?mrows = "[SqlText ''/uploads/a.wav'', SqlNull, SqlText ''/uploads/b.wav'', SqlText []]"
  let ?prows = "[SqlText ''/pdfs/r.pdf'']"
  have h1: "find_orphans cfg0 w0 = Inr ([''/uploads/c.wav''], [''/pdfs/old.pdf''])"
    by (simp add: eval_defs)
  have h2: "meetings (db w0) = Some ?mrows" by (simp add: w0_def db0_def)
  have h3: "pdfs (db w0) = Some ?prows" by (simp add: w0_def db0_def)
  have h4: "stat (fs w0) (UPLOAD_DIR cfg0) = Some (Dir ?ues)" by (simp add: eval_defs)
  have h5: "stat (fs w0) (PDF_DIR cfg0) = Some (Dir ?pes)" by (simp add: eval_defs)
  have h6: "proper_listing (map fst ?ues)"
    by (simp add: proper_listing_def valid_name_def sep_def)
  have h7: "proper_listing (map fst ?pes)"
    by (simp add: proper_listing_def valid_name_def sep_def)
  have f: "file_entries ?ues = [''a.wav'', ''b.wav'', ''c.wav'']"
    "file_entries ?pes = [''r.pdf'', ''old.pdf'']"
    by (simp_all add: file_entries_def)
  have c: "UPLOAD_DIR cfg0 = ''/uploads''" "PDF_DIR cfg0 = ''/pdfs''"
    by (simp_all add: cfg0_def)
  from orphans_are_set_difference[OF h1 h2 h3 h4 h5 h6 h7]
  have "[''/uploads/c.wav''] =
          [p \<leftarrow> map (join (UPLOAD_DIR cfg0)) (file_entries ?ues). SqlText p \<notin> set ?mrows]"
    and "[''/pdfs/old.pdf''] =
          [p \<leftarrow> map (join (PDF_DIR cfg0)) (file_entries ?pes). SqlText p \<notin> set ?prows]"
    by blast+
  then show ?thesis using h1 h6 h7 by (simp only: f c set_simps list.map) simp
qed



text \<open>
  C3, as stated, fails for a run of \<open>main\<close>: with a flag given, \<open>main\<close> creates
  \<open>DATA_DIR\<close> before it dispatches, so a run on a file system without \<open>DATA_DIR\<close>
  changes the file system although the database file does not exist.
\<close>

theorem main_creates_data_dir_counterexample:
  "\<not> exists_path (fs w_empty) (db_path cfg0) \<and>
   fs (snd (main cfg0 [CheckFlag] w_empty)) = Dir [(''data'', Dir [])] \<and>
   fs (snd (main cfg0 [CheckFlag] w_empty)) \<noteq> fs w_empty"
proof -
  have h: "\<not> exists_path (fs w_empty) (db_path cfg0)"
    by (simp add: w_empty_def eval_defs)
  have m: "makedirs (fs w_empty) (DATA_DIR cfg0) = Inr (Dir [(''data'', Dir [])])"
    by (simp add: w_empty_def eval_defs)
  have e: "\<not> exists_path (Dir [(''data'', Dir [])]) (db_path cfg0)"
    by (simp add: eval_defs)
  have f: "fs w_empty = Dir []" by (simp add: w_empty_def)
  have r: "fs (snd (main cfg0 [CheckFlag] w_empty)) = Dir [(''data'', Dir [])]"
    by (simp add: main_eq m run_if_def check_database_def e print_def)
  show ?thesis using h r by (simp add: f)
qed

text \<open>
  C3, amended. When the database file does not exist, each of \<open>check_database\<close>,
  \<open>backup_database\<close> and \<open>clean_orphaned_files\<close> prints the not-found message, returns
  \<open>False\<close> and changes nothing else; and a run of \<open>main\<close> changes the file system only
  by the \<open>makedirs\<close> of \<open>DATA_DIR\<close> it makes when a flag was given, printing one
  not-found message for each operation requested.
\<close>

theorem missing_database_reported:
  assumes "\<not> exists_path (fs w) (db_path cfg)"
  shows "check_database cfg w = (False, print (DatabaseNotFound (db_path cfg)) w)
     \<and> backup_database cfg w = (False, print (DatabaseNotFound (db_path cfg)) w)
     \<and> clean_orphaned_files cfg w = (False, print (DatabaseNotFound (db_path cfg)) w)
     \<and> main cfg argv w =
         (if argv = [] then (Returned, print Help w)
          else (case makedirs (fs w) (DATA_DIR cfg) of
                  Inl e \<Rightarrow> (Raised e, w)
                | Inr root1 \<Rightarrow>
                    (Returned,
                     w\<lparr>fs := root1,
                       stdout := stdout w @ not_found_if (CheckFlag \<in> set argv) cfg
                                 @ not_found_if (BackupFlag \<in> set argv) cfg
                                 @ not_found_if (CleanFlag \<in> set argv) cfg\<rparr>)))"
proof -
  note nf = not_found[OF assms]
  have m: "main cfg argv w =
         (if argv = [] then (Returned, print Help w)
          else (case makedirs (fs w) (DATA_DIR cfg) of
                  Inl e \<Rightarrow> (Raised e, w)
                | Inr root1 \<Rightarrow>
                    (Returned,
                     w\<lparr>fs := root1,
                       stdout := stdout w @ not_found_if (CheckFlag \<in> set argv) cfg
                                 @ not_found_if (BackupFlag \<in> set argv) cfg
                                 @ not_found_if (CleanFlag \<in> set argv) cfg\<rparr>)))"
  proof (cases "makedirs (fs w) (DATA_DIR cfg)")
    case (Inl e)
    then show ?thesis by (simp add: main_eq)
  next
    case (Inr root1)
    have step: "\<And>b op x. fs x = root1 \<Longrightarrow>
        op \<in> {check_database cfg, backup_database cfg, clean_orphaned_files cfg} \<Longrightarrow>
        run_if b op x = x\<lparr>stdout := stdout x @ not_found_if b cfg\<rparr>"
    proof -
      fix b op and x :: world
      assume x: "fs x = root1"
        and op: "op \<in> {check_database cfg, backup_database cfg, clean_orphaned_files cfg}"
      have "\<not> exists_path (fs x) (db_path cfg)"
        using makedirs_keeps_db_absent[OF Inr assms] x by simp
      from not_found[OF this] op
      show "run_if b op x = x\<lparr>stdout := stdout x @ not_found_if b cfg\<rparr>"
        by (auto simp: run_if_def not_found_if_def print_def)
    qed
    have "run_if (CleanFlag \<in> set argv) (clean_orphaned_files cfg)
            (run_if (BackupFlag \<in> set argv) (backup_database cfg)
              (run_if (CheckFlag \<in> set argv) (check_database cfg) (w\<lparr>fs := root1\<rparr>)))
          = w\<lparr>fs := root1,
               stdout := stdout w @ not_found_if (CheckFlag \<in> set argv) cfg
                         @ not_found_if (BackupFlag \<in> set argv) cfg
                         @ not_found_if (CleanFlag \<in> set argv) cfg\<rparr>"
      by (simp add: step)
    then show ?thesis by (simp add: main_eq Inr)
  qed
  from nf m show ?thesis by blast
qed

theorem missing_database_reported_witness:
  "\<not> exists_path (fs w_empty) (db_path cfg0) \<and>
   check_database cfg0 w_empty = (False, print (DatabaseNotFound ''/data/meetings.db'') w_empty) \<and>
   main cfg0 [CleanFlag, CheckFlag] w_empty =
     (Returned, w_empty\<lparr>fs := Dir [(''data'', Dir [])],
                        stdout := [DatabaseNotFound ''/data/meetings.db'',
                                   DatabaseNotFound ''/data/meetings.db'']\<rparr>)"
proof -
  have h: "\<not> exists_path (fs w_empty) (db_path cfg0)"
    by (simp add: w_empty_def eval_defs)
  have m: "makedirs (fs w_empty) (DATA_DIR cfg0) = Inr (Dir [(''data'', Dir [])])"
    by (simp add: w_empty_def eval_defs)
  have p: "db_path cfg0 = ''/data/meetings.db''" by (simp add: eval_defs)
  have s: "stdout w_empty = []" by (simp add: w_empty_def w0_def)
  from missing_database_reported[OF h, of "[CleanFlag, CheckFlag]"]
  show ?thesis using h by (simp add: m p s not_found_if_def)
qed

text \<open>
  C4. When \<open>clean_orphaned_files\<close> has found at least one orphaned file and the line the
  operator types, lowered, is not \<open>y\<close>, the operation returns \<open>False\<close> after printing the
  two counts, the prompt and the abort message; it has consumed that one line of input
  and the file system is the one it started with.
\<close>

theorem declined_aborts:
  assumes "find_orphans cfg w = Inr (upload_files, pdf_files)"
    and "upload_files \<noteq> [] \<or> pdf_files \<noteq> []"
    and "stdin w = answer # rest"
    and "lower answer \<noteq> ''y''"
  shows "clean_orphaned_files cfg w =
           (False, w\<lparr>stdin := rest,
                     stdout := stdout w @ [FoundUploads (length upload_files),
                                           FoundPdfs (length pdf_files), Prompt,
                                           CleanupAborted]\<rparr>)
         \<and> fs (snd (clean_orphaned_files cfg w)) = fs w"
  using assms find_orphans_exists[OF assms(1)]
  by (auto simp: clean_orphaned_files_def print_def input_def)

theorem declined_aborts_witness:
  "find_orphans cfg0 w0 = Inr ([''/uploads/c.wav''], [''/pdfs/old.pdf'']) \<and>
   stdin w0 = [''n''] \<and> lower ''n'' \<noteq> ''y'' \<and>
   clean_orphaned_files cfg0 w0 =
     (False, w0\<lparr>stdin := [],
                stdout := [FoundUploads 1, FoundPdfs 1, Prompt, CleanupAborted]\<rparr>) \<and>
   fs (snd (clean_orphaned_files cfg0 w0)) = root0"
proof -
  have h1: "find_orphans cfg0 w0 = Inr ([''/uploads/c.wav''], [''/pdfs/old.pdf''])"
    by (simp add: eval_defs)
  have h2: "[''/uploads/c.wav''] \<noteq> [] \<or> [''/pdfs/old.pdf''] \<noteq> []" by simp
  have h3: "stdin w0 = ''n'' # []" by (simp add: w0_def)
  have h4: "lower ''n'' \<noteq> ''y''" by (simp add: lower_def lower_char_def)
  have s: "stdout w0 = []" "fs w0 = root0" by (simp_all add: w0_def)
  show ?thesis using h1 h3 h4 declined_aborts[OF h1 h2 h3 h4] by (simp add: s)
qed

text \<open>
  C5. On a confirmed run of \<open>clean_orphaned_files\<close> (an orphan was found, the answer
  lowers to \<open>y\<close>) the result is \<open>True\<close>, and after the counts and the prompt the output
  is one failure message for each orphan in \<open>failed\<close>, a subsequence of the orphans,
  followed by the count. Every orphan is either counted or reported: the count plus
  the number of failures is the number of orphans, and the count is the number of
  orphaned objects that are gone from the file system afterwards. An orphan the
  operating system refuses to remove is reported and still a file; every other orphan
  no longer exists, whatever happened to the ones before it. Nothing but orphans
  changes.
\<close>

theorem confirmed_run_deletes_each_orphan:
  assumes "find_orphans cfg w = Inr (upload_files, pdf_files)"
    and "upload_files \<noteq> [] \<or> pdf_files \<noteq> []"
    and "stdin w = answer # rest"
    and "lower answer = ''y''"
    and "clean_orphaned_files cfg w = (result, w')"
  shows "result = True \<and>
    (\<exists>failed deleted_count.
        stdout w' = stdout w @ [FoundUploads (length upload_files), FoundPdfs (length pdf_files),
                                Prompt]
                    @ map (\<lambda>p. FailedToDelete p OSError) failed @ [Deleted deleted_count]
      \<and> subseq failed (upload_files @ pdf_files)
      \<and> deleted_count + length failed = length (upload_files @ pdf_files)
      \<and> deleted_count =
          length [q \<leftarrow> remdups (map components (upload_files @ pdf_files)).
                    shape (fs w') q = None]
      \<and> (\<forall>p\<in>set (upload_files @ pdf_files).
            if components p \<in> set (readonly w) then p \<in> set failed \<and> isfile (fs w') p
            else \<not> exists_path (fs w') p))
    \<and> (\<forall>q. q \<notin> components ` set (upload_files @ pdf_files) \<longrightarrow>
             shape (fs w') q = shape (fs w) q)"
proof -
  let ?files = "upload_files @ pdf_files"
  define w2 where "w2 = w\<lparr>stdout := stdout w @ [FoundUploads (length upload_files),
                                               FoundPdfs (length pdf_files), Prompt],
                         stdin := rest\<rparr>"
  obtain w3 n where df: "delete_files ?files w2 0 = (w3, n)"
    by (cases "delete_files ?files w2 0")
  have run: "clean_orphaned_files cfg w = (True, print (Deleted n) w3)"
    using assms(1-4) find_orphans_exists[OF assms(1)] df
    by (auto simp: clean_orphaned_files_def input_def print_def Let_def w2_def)
  with assms(5) have res: "result = True" and w': "w' = print (Deleted n) w3" by simp_all
  have w2: "fs w2 = fs w" "readonly w2 = readonly w"
    "stdout w2 = stdout w @ [FoundUploads (length upload_files), FoundPdfs (length pdf_files), Prompt]"
    by (simp_all add: w2_def)
  from delete_files_summary[OF df] obtain F R where
    a: "w3 = w2\<lparr>fs := fs w3, stdout := stdout w2 @ map (\<lambda>p. FailedToDelete p OSError) F\<rparr>"
    and b: "subseq F ?files" and c: "n + length F = 0 + length ?files"
    and d: "finite R" "n = 0 + card R"
    and r: "R \<subseteq> components ` set ?files - set (readonly w2)"
    and s: "\<forall>q. shape (fs w3) q = (if q \<in> R then None else shape (fs w2) q)"
    and u: "\<forall>p\<in>set ?files. components p \<in> set (readonly w2) \<longrightarrow> p \<in> set F"
    and v: "\<forall>p\<in>set ?files. p \<noteq> [] \<and> components p \<noteq> [] \<and> components p \<notin> set (readonly w2)
               \<and> (\<exists>d. shape (fs w2) (components p) = Some (RegularFile d))
               \<longrightarrow> components p \<in> R"
    by blast
  have fs': "fs w' = fs w3" by (simp add: w' print_def)
  have out3: "stdout w3 = stdout w2 @ map (\<lambda>p. FailedToDelete p OSError) F"
    by (subst a) simp
  have out: "stdout w' = stdout w @ [FoundUploads (length upload_files),
                FoundPdfs (length pdf_files), Prompt]
              @ map (\<lambda>p. FailedToDelete p OSError) F @ [Deleted n]"
    by (simp add: w' print_def out3 w2)
  obtain es where root: "fs w = Dir es" using find_orphans_root[OF assms(1)] by blast
  have reg: "\<And>p. p \<in> set ?files \<Longrightarrow>
                p \<noteq> [] \<and> components p \<noteq> [] \<and> (\<exists>d. shape (fs w) (components p) = Some (RegularFile d))"
  proof -
    fix p assume "p \<in> set ?files"
    then have "isfile (fs w) p" using find_orphans_isfile[OF assms(1)] by blast
    then have 1: "p \<noteq> []" and 2: "\<exists>d. shape (fs w) (components p) = Some (RegularFile d)"
      by (simp_all add: isfile_shape)
    from 2 root have "components p \<noteq> []" by auto
    with 1 2 show "p \<noteq> [] \<and> components p \<noteq> [] \<and> (\<exists>d. shape (fs w) (components p) = Some (RegularFile d))"
      by blast
  qed
  have R_eq: "R = {q \<in> set (remdups (map components ?files)). shape (fs w') q = None}"
  proof (intro set_eqI iffI)
    fix q assume "q \<in> R"
    then show "q \<in> {q \<in> set (remdups (map components ?files)). shape (fs w') q = None}"
      using r s fs' by auto
  next
    fix q assume "q \<in> {q \<in> set (remdups (map components ?files)). shape (fs w') q = None}"
    then obtain p where p: "p \<in> set ?files" "q = components p" and gone: "shape (fs w3) q = None"
      using fs' by auto
    from reg[OF p(1)] p(2) w2 have "shape (fs w2) q \<noteq> None" by auto
    with gone s show "q \<in> R" by (metis)
  qed
  have count: "n = length [q \<leftarrow> remdups (map components ?files). shape (fs w') q = None]"
  proof -
    have "card R = card (set [q \<leftarrow> remdups (map components ?files). shape (fs w') q = None])"
      by (simp add: R_eq)
    also have "\<dots> = length [q \<leftarrow> remdups (map components ?files). shape (fs w') q = None]"
      by (rule distinct_card) simp
    finally show ?thesis using d by simp
  qed
  have fate: "\<forall>p\<in>set ?files.
            if components p \<in> set (readonly w) then p \<in> set F \<and> isfile (fs w') p
            else \<not> exists_path (fs w') p"
  proof
    fix p assume p: "p \<in> set ?files"
    note rp = reg[OF p]
    show "if components p \<in> set (readonly w) then p \<in> set F \<and> isfile (fs w') p
            else \<not> exists_path (fs w') p"
    proof (cases "components p \<in> set (readonly w)")
      case True
      then have "p \<in> set F" using u p w2 by simp
      moreover have "components p \<notin> R" using r True w2 by auto
      then have "shape (fs w') (components p) = shape (fs w) (components p)"
        using s fs' w2 by simp
      then have "isfile (fs w') p" using rp by (simp add: isfile_shape)
      ultimately show ?thesis using True by simp
    next
      case False
      then have "components p \<in> R" using v p rp w2 by simp
      then have "shape (fs w') (components p) = None" using s fs' by simp
      then show ?thesis using False by (simp add: exists_path_shape)
    qed
  qed
  have frame: "\<forall>q. q \<notin> components ` set ?files \<longrightarrow> shape (fs w') q = shape (fs w) q"
    using r s fs' w2 by auto
  from res out b c count fate frame show ?thesis by auto
qed

theorem confirmed_run_deletes_each_orphan_witness:
  "find_orphans cfg0 w_yes = Inr ([''/uploads/c.wav''], [''/pdfs/old.pdf'']) \<and>
   stdin w_yes = [''Y''] \<and> lower ''Y'' = ''y'' \<and>
   clean_orphaned_files cfg0 w_yes =
     (True, w_yes\<lparr>fs := root_after, stdin := [],
                  stdout := [FoundUploads 1, FoundPdfs 1, Prompt,
                             FailedToDelete ''/uploads/c.wav'' OSError, Deleted 1]\<rparr>) \<and>
   isfile root_after ''/uploads/c.wav'' \<and> \<not> exists_path root_after ''/pdfs/old.pdf''"
proof -
  let ?w' = "w_yes\<lparr>fs := root_after, stdin := [],
                  stdout := [FoundUploads 1, FoundPdfs 1, Prompt,
                             FailedToDelete ''/uploads/c.wav'' OSError, Deleted 1]\<rparr>"
  have h1: "find_orphans cfg0 w_yes = Inr ([''/uploads/c.wav''], [''/pdfs/old.pdf''])"
    by (simp add: w_yes_def eval_defs)
  have h2: "[''/uploads/c.wav''] \<noteq> [] \<or> [''/pdfs/old.pdf''] \<noteq> []" by simp
  have h3: "stdin w_yes = ''Y'' # []" by (simp add: w_yes_def)
  have h4: "lower ''Y'' = ''y''" by (simp add: lower_def lower_char_def)
  have h5: "clean_orphaned_files cfg0 w_yes = (True, ?w')"
    by (simp add: w_yes_def root_after_def eval_defs)
  have ro: "components ''/uploads/c.wav'' \<in> set (readonly w_yes)"
    "components ''/pdfs/old.pdf'' \<notin> set (readonly w_yes)"
    by (simp_all add: w_yes_def components_def sep_def)
  from confirmed_run_deletes_each_orphan[OF h1 h2 h3 h4 h5]
  obtain failed where fate: "\<forall>p\<in>set ([''/uploads/c.wav''] @ [''/pdfs/old.pdf'']).
            if components p \<in> set (readonly w_yes) then p \<in> set failed \<and> isfile (fs ?w') p
            else \<not> exists_path (fs ?w') p"
    by blast
  have 1: "isfile root_after ''/uploads/c.wav''"
    using bspec[OF fate, of "''/uploads/c.wav''"] ro(1) by (simp split: if_splits)
  have 2: "\<not> exists_path root_after ''/pdfs/old.pdf''"
    using bspec[OF fate, of "''/pdfs/old.pdf''"] ro(2) by (simp split: if_splits)
  show ?thesis using h1 h3 h4 h5 1 2 by simp
qed

text \<open>
  C6. When both lists of orphaned files are empty, \<open>clean_orphaned_files\<close> returns \<open>True\<close>
  having printed the two counts and the nothing-to-do message only: no prompt is
  printed, no line of input is read and the file system is untouched.
\<close>

theorem no_orphans_no_prompt:
  assumes "find_orphans cfg w = Inr ([], [])"
  shows "clean_orphaned_files cfg w =
           (True, w\<lparr>stdout := stdout w @ [FoundUploads 0, FoundPdfs 0, NoOrphans]\<rparr>)"
  using assms find_orphans_exists[OF assms]
  by (simp add: clean_orphaned_files_def print_def)

theorem no_orphans_no_prompt_witness:
  "find_orphans cfg0 w_clean = Inr ([], []) \<and>
   clean_orphaned_files cfg0 w_clean =
     (True, w_clean\<lparr>stdout := [FoundUploads 0, FoundPdfs 0, NoOrphans]\<rparr>)"
proof -
  have h: "find_orphans cfg0 w_clean = Inr ([], [])"
    by (simp add: w_clean_def eval_defs)
  have s: "stdout w_clean = []" by (simp add: w_clean_def w0_def)
  show ?thesis using h no_orphans_no_prompt[OF h] by (simp add: s)
qed

text \<open>
  C7, as stated, fails where a directory already has the backup's name:
  \<open>shutil.copy2\<close> then puts the copy inside that directory, \<open>backup_database\<close> returns
  \<open>True\<close>, and no file is at \<open>DATA_DIR/backups/meetings_<timestamp>.db\<close>.
\<close>

theorem backup_into_directory_counterexample:
  "fst (backup_database cfg0 w_bdir) = True \<and>
   read_file (fs w_bdir) (db_path cfg0) = Some [1, 2, 3] \<and>
   read_file (fs (snd (backup_database cfg0 w_bdir))) (backup_path cfg0 (now w_bdir)) = None \<and>
   read_file (fs (snd (backup_database cfg0 w_bdir)))
     (join (backup_path cfg0 (now w_bdir)) ''meetings.db'') = Some [1, 2, 3]"
proof -
  have n: "now w_bdir = t0" by (simp add: w_bdir_def w0_def)
  have 1: "read_file (fs w_bdir) (db_path cfg0) = Some [1, 2, 3]"
    by (simp add: w_bdir_def eval_defs)
  have 2: "read_file root_bdir_after ''/data/backups/meetings_20240309_070500.db'' = None"
    by (simp add: root_bdir_after_def eval_defs)
  have 3: "read_file root_bdir_after
             (join ''/data/backups/meetings_20240309_070500.db'' ''meetings.db'') = Some [1, 2, 3]"
    by (simp add: root_bdir_after_def eval_defs)
  show ?thesis by (simp add: backup_w_bdir n backup_path0 1 2 3)
qed

text \<open>
  C7, amended. After a successful run of \<open>backup_database\<close> the directory
  \<open>DATA_DIR/backups\<close> exists (and \<open>makedirs\<close> leaves the tree alone when it existed
  before); the database file is unchanged, and its bytes are those of the file at
  \<open>DATA_DIR/backups/meetings_<timestamp>.db\<close>, or, if that path was a directory before
  the run, of the file \<open>meetings.db\<close> inside it. The timestamp is the fifteen characters
  \<open>YYYYMMDD_HHMMSS\<close> of the current time; microseconds play no part. The path printed is
  \<open>DATA_DIR/backups/meetings_<timestamp>.db\<close>.
\<close>

theorem backup_copies_database:
  assumes "backup_database cfg w = (True, w')"
  shows "isdir (fs w') (backup_dir cfg)
     \<and> (isdir (fs w) (backup_dir cfg) \<longrightarrow> makedirs (fs w) (backup_dir cfg) = Inr (fs w))
     \<and> (\<exists>data. read_file (fs w) (db_path cfg) = Some data
             \<and> read_file (fs w') (db_path cfg) = Some data
             \<and> read_file (fs w')
                   (if isdir (fs w) (backup_path cfg (now w))
                    then join (backup_path cfg (now w)) ''meetings.db''
                    else backup_path cfg (now w)) = Some data)
     \<and> backup_path cfg (now w) =
           join (join (DATA_DIR cfg) ''backups'') (''meetings_'' @ strftime (now w) @ ''.db'')
     \<and> length (strftime (now w)) = 15
     \<and> strftime ((now w)\<lparr>microsecond := us\<rparr>) = strftime (now w)
     \<and> stdout w' = stdout w @ [BackedUpTo (backup_path cfg (now w))]"
proof -
  let ?bd = "backup_dir cfg" and ?bp = "backup_path cfg (now w)" and ?db = "db_path cfg"
  let ?cD = "components (DATA_DIR cfg)"
  from assms obtain root1 root2 where m: "makedirs (fs w) ?bd = Inr root1"
    and c: "copy2 root1 ?db ?bp = Inr root2"
    and w': "w' = print (BackedUpTo ?bp) (w\<lparr>fs := root2\<rparr>)"
    by (auto simp: backup_database_def Let_def split: if_splits sum.splits)
  note s1 = makedirs_Inr(2)[OF m]
  let ?dst = "if isdir root1 ?bp then join ?bp (basename ?db) else ?bp"
  from copy2_Inr[OF c] obtain data where r1: "read_file root1 ?db = Some data"
    and ne: "?dst \<noteq> []"
    and s2: "\<And>q. shape root2 q =
               (if q = components ?dst then Some (RegularFile data) else shape root1 q)"
    by blast
  have fs': "fs w' = root2" by (simp add: w' print_def)
  have cbd: "components ?bd = ?cD @ [''backups'']" by (rule components_backup_dir)
  have cbp: "components ?bp = ?cD @ [''backups'', backup_name (now w)]"
    by (rule components_backup_path)
  have cdb: "components ?db = ?cD @ [''meetings.db'']" by (rule components_db_path)
  have cin: "components (join ?bp ''meetings.db'') = ?cD @ [''backups'', backup_name (now w), ''meetings.db'']"
    by (simp add: components_join_name valid_fixed_names cbp)
  have same_dir: "isdir root1 ?bp = isdir (fs w) ?bp"
    by (simp add: isdir_shape s1 cbp cbd)
  have cdst: "components ?dst = ?cD @ [''backups'', backup_name (now w)]
              \<or> components ?dst = ?cD @ [''backups'', backup_name (now w), ''meetings.db'']"
    by (simp add: basename_db_path cbp cin)
  have dst_eq: "?dst = (if isdir (fs w) ?bp then join ?bp ''meetings.db'' else ?bp)"
    by (simp add: same_dir basename_db_path)
  have 1: "isdir (fs w') ?bd"
    using cdst by (auto simp: isdir_shape nonempty_paths fs' s2 s1 cbd)
  have 2: "isdir (fs w) ?bd \<longrightarrow> makedirs (fs w) ?bd = Inr (fs w)"
    by (simp add: makedirs_existing)
  have r0: "read_file (fs w) ?db = Some data"
    using r1 by (simp add: read_file_shape s1 cdb cbd)
  have r2: "read_file (fs w') ?db = Some data"
    using r1 cdst by (auto simp: read_file_shape fs' s2 cdb)
  have r3: "read_file (fs w') (if isdir (fs w) ?bp then join ?bp ''meetings.db'' else ?bp) = Some data"
    using ne unfolding dst_eq[symmetric] by (simp only: read_file_shape fs' s2) simp
  have 4: "?bp = join (join (DATA_DIR cfg) ''backups'') (''meetings_'' @ strftime (now w) @ ''.db'')"
    by (simp add: backup_path_def backup_dir_def)
  have 5: "length (strftime (now w)) = 15"
    by (simp add: strftime_def pad2_def pad4_def)
  have 6: "strftime ((now w)\<lparr>microsecond := us\<rparr>) = strftime (now w)"
    by (simp add: strftime_def)
  have 7: "stdout w' = stdout w @ [BackedUpTo ?bp]" by (simp add: w' print_def)
  from 1 2 r0 r2 r3 4 5 6 7 show ?thesis by blast
qed

theorem backup_copies_database_witness:
  "backup_database cfg0 w0 =
     (True, w0\<lparr>fs := root_backed_up,
               stdout := [BackedUpTo ''/data/backups/meetings_20240309_070500.db'']\<rparr>) \<and>
   isdir root_backed_up (backup_dir cfg0) \<and>
   (\<exists>data. read_file root0 (db_path cfg0) = Some data \<and>
           read_file root_backed_up (backup_path cfg0 t0) = Some data)"
proof -
  let ?w' = "w0\<lparr>fs := root_backed_up,
               stdout := [BackedUpTo ''/data/backups/meetings_20240309_070500.db'']\<rparr>"
  have e: "exists_path (fs w0) (db_path cfg0)" by (simp add: eval_defs)
  have n: "now w0 = t0" "stdout w0 = []" by (simp_all add: w0_def)
  have r: "fs w0 = root0" by (simp add: w0_def)
  have m: "makedirs (fs w0) (backup_dir cfg0) =
            Inr (Dir [(''data'', Dir [(''meetings.db'', File [1, 2, 3]), (''backups'', Dir [])]),
          (''uploads'', Dir [(''a.wav'', File []), (''b.wav'', File [7]),
                             (''c.wav'', File [9]), (''sub'', Dir [])]),
          (''pdfs'', Dir [(''r.pdf'', File [5]), (''old.pdf'', File [6])])])"
    by (simp add: eval_defs)
  have c: "copy2 (Dir [(''data'', Dir [(''meetings.db'', File [1, 2, 3]), (''backups'', Dir [])]),
          (''uploads'', Dir [(''a.wav'', File []), (''b.wav'', File [7]),
                             (''c.wav'', File [9]), (''sub'', Dir [])]),
          (''pdfs'', Dir [(''r.pdf'', File [5]), (''old.pdf'', File [6])])])
            (db_path cfg0) ''/data/backups/meetings_20240309_070500.db''
             = Inr root_backed_up"
    by (simp add: root_backed_up_def eval_defs)
  have h: "backup_database cfg0 w0 = (True, ?w')"
    by (simp add: backup_database_def e n m backup_path0 c print_def)
  have nd: "\<not> isdir (fs w0) (backup_path cfg0 (now w0))"
    by (simp add: n backup_path0) (simp add: eval_defs)
  from backup_copies_database[OF h, of 0] nd
  have "isdir root_backed_up (backup_dir cfg0) \<and>
   (\<exists>data. read_file root0 (db_path cfg0) = Some data \<and>
           read_file root_backed_up (backup_path cfg0 t0) = Some data)"
    by (auto simp: n r)
  with h show ?thesis by simp
qed

text \<open>
  C8, as stated, fails where \<open>makedirs\<close> raises: with all three flags given and a
  regular file on the way to \<open>DATA_DIR\<close>, \<open>main\<close> ends with the exception and the world
  is as it was, although each of the three operations changes the world (it prints)
  when it runs. None of the requested operations has executed.
\<close>

theorem requested_operations_not_run_counterexample:
  "main cfg1 [CheckFlag, BackupFlag, CleanFlag] w_srv = (Raised OSError, w_srv) \<and>
   snd (check_database cfg1 w_srv) \<noteq> w_srv \<and>
   snd (backup_database cfg1 w_srv) \<noteq> w_srv \<and>
   snd (clean_orphaned_files cfg1 w_srv) \<noteq> w_srv"
proof -
  have m: "makedirs (fs w_srv) (DATA_DIR cfg1) = Inl OSError"
    by (simp add: w_srv_def cfg1_def eval_defs)
  have e: "\<not> exists_path (fs w_srv) (db_path cfg1)"
    by (simp add: w_srv_def cfg1_def eval_defs)
  have s: "stdout w_srv = []" by (simp add: w_srv_def w0_def)
  have p: "\<And>m. print m w_srv \<noteq> w_srv"
  proof
    fix m assume "print m w_srv = w_srv"
    then have "stdout (print m w_srv) = stdout w_srv" by simp
    then show False by (simp add: print_def s)
  qed
  show ?thesis
    by (simp add: main_eq m not_found[OF e] p)
qed

text \<open>
  C8, amended. \<open>main\<close> with no flag prints the help and does nothing else. With flags,
  in whatever order and however often they were given, it calls \<open>makedirs\<close> on
  \<open>DATA_DIR\<close>; when that succeeds it runs the requested operations in the order check,
  backup, clean, each on the world the one before left, and when it raises \<open>main\<close> ends
  with the exception and no operation runs. Two command lines with the same set of
  flags give the same run.
\<close>

theorem main_runs_in_fixed_order:
  "main cfg argv w =
     (if argv = [] then (Returned, print Help w)
      else (case makedirs (fs w) (DATA_DIR cfg) of
              Inl e \<Rightarrow> (Raised e, w)
            | Inr root1 \<Rightarrow>
                (Returned,
                 run_if (CleanFlag \<in> set argv) (clean_orphaned_files cfg)
                   (run_if (BackupFlag \<in> set argv) (backup_database cfg)
                     (run_if (CheckFlag \<in> set argv) (check_database cfg)
                       (w\<lparr>fs := root1\<rparr>))))))
   \<and> (set argv' = set argv \<longrightarrow> main cfg argv' w = main cfg argv w)"
proof -
  have "main cfg argv' w = main cfg argv w" if s: "set argv' = set argv"
  proof -
    from s have e: "(argv' = []) = (argv = [])" by auto
    show ?thesis by (simp add: main_eq s e split: sum.splits)
  qed
  then show ?thesis using main_eq[of cfg argv w] by blast
qed

theorem main_runs_in_fixed_order_witness:
  "set [CleanFlag, CheckFlag, CleanFlag] = set [CheckFlag, CleanFlag] \<and>
   main cfg0 [CleanFlag, CheckFlag, CleanFlag] w0 = main cfg0 [CheckFlag, CleanFlag] w0 \<and>
   main cfg0 [CheckFlag, CleanFlag] w0 =
     (Returned,
      w0\<lparr>stdin := [],
         stdout := [DatabaseStatus, Location ''/data/meetings.db'', Size 3, Meetings 4,
                    PdfRecords 1, IntegrityCheck ''ok'',
                    FoundUploads 1, FoundPdfs 1, Prompt, CleanupAborted]\<rparr>)"
proof -
  let ?out = "[DatabaseStatus, Location ''/data/meetings.db'', Size 3, Meetings 4,
               PdfRecords 1, IntegrityCheck ''ok'']"
  have s: "set [CleanFlag, CheckFlag, CleanFlag] = set [CheckFlag, CleanFlag]" by auto
  have m: "makedirs (fs w0) (DATA_DIR cfg0) = Inr (fs w0)" by (simp add: eval_defs)
  have w: "w0\<lparr>fs := fs w0\<rparr> = w0" by simp
  have c: "check_database cfg0 w0 = (True, w0\<lparr>stdout := ?out\<rparr>)"
    by (simp add: eval_defs)
  have k: "clean_orphaned_files cfg0 (w0\<lparr>stdout := ?out\<rparr>) =
             (False, w0\<lparr>stdin := [],
                stdout := ?out @ [FoundUploads 1, FoundPdfs 1, Prompt, CleanupAborted]\<rparr>)"
    by (simp add: eval_defs)
  note t = main_runs_in_fixed_order[of cfg0 "[CheckFlag, CleanFlag]" w0
                                      "[CleanFlag, CheckFlag, CleanFlag]"]
  from t s have 1: "main cfg0 [CleanFlag, CheckFlag, CleanFlag] w0 = main cfg0 [CheckFlag, CleanFlag] w0"
    by blast
  from t have "main cfg0 [CheckFlag, CleanFlag] w0 =
     (if [CheckFlag, CleanFlag] = [] then (Returned, print Help w0)
      else (case makedirs (fs w0) (DATA_DIR cfg0) of
              Inl e \<Rightarrow> (Raised e, w0)
            | Inr root1 \<Rightarrow>
                (Returned,
                 run_if (CleanFlag \<in> set [CheckFlag, CleanFlag]) (clean_orphaned_files cfg0)
                   (run_if (BackupFlag \<in> set [CheckFlag, CleanFlag]) (backup_database cfg0)
                     (run_if (CheckFlag \<in> set [CheckFlag, CleanFlag]) (check_database cfg0)
                       (w0\<lparr>fs := root1\<rparr>))))))"
    by blast
  then have 2: "main cfg0 [CheckFlag, CleanFlag] w0 =
     (Returned, w0\<lparr>stdin := [],
                stdout := ?out @ [FoundUploads 1, FoundPdfs 1, Prompt, CleanupAborted]\<rparr>)"
    by (simp add: m w run_if_def c k del: One_nat_def)
  from s 1 2 show ?thesis by simp
qed

text \<open>
  C9, as stated, fails where \<open>makedirs\<close> raises: with a regular file on the way to
  \<open>DATA_DIR\<close>, \<open>main\<close> ends with the exception and \<open>DATA_DIR\<close> does not exist afterwards.
\<close>

theorem data_dir_missing_counterexample:
  "main cfg1 [CheckFlag] w_srv = (Raised OSError, w_srv) \<and>
   \<not> exists_path (fs (snd (main cfg1 [CheckFlag] w_srv))) (DATA_DIR cfg1)"
proof -
  have m: "makedirs (fs w_srv) (DATA_DIR cfg1) = Inl OSError"
    by (simp add: w_srv_def cfg1_def eval_defs)
  have e: "\<not> exists_path (fs w_srv) (DATA_DIR cfg1)"
    by (simp add: w_srv_def cfg1_def eval_defs)
  show ?thesis using e by (simp add: main_eq m)
qed

text \<open>
  C9, amended. With at least one flag, \<open>main\<close> calls \<open>makedirs\<close> on \<open>DATA_DIR\<close> before
  it dispatches, whichever flags were given. When that call succeeds, \<open>DATA_DIR\<close> is a
  directory when the first operation starts and still one after the run; when it
  raises, \<open>main\<close> ends with that exception, having run no operation and changed nothing.
\<close>

theorem data_dir_after_main:
  assumes "argv \<noteq> []"
  shows "case makedirs (fs w) (DATA_DIR cfg) of
           Inl e \<Rightarrow> main cfg argv w = (Raised e, w)
         | Inr root1 \<Rightarrow>
             isdir root1 (DATA_DIR cfg)
           \<and> main cfg argv w =
               (Returned,
                run_if (CleanFlag \<in> set argv) (clean_orphaned_files cfg)
                  (run_if (BackupFlag \<in> set argv) (backup_database cfg)
                    (run_if (CheckFlag \<in> set argv) (check_database cfg)
                      (w\<lparr>fs := root1\<rparr>))))
           \<and> isdir (fs (snd (main cfg argv w))) (DATA_DIR cfg)"
proof (cases "makedirs (fs w) (DATA_DIR cfg)")
  case (Inl e)
  then show ?thesis using assms by (simp add: main_eq)
next
  case (Inr root1)
  have 0: "isdir (fs (w\<lparr>fs := root1\<rparr>)) (DATA_DIR cfg)"
    using makedirs_isdir[OF Inr] by simp
  have 1: "\<And>b x. isdir (fs x) (DATA_DIR cfg) \<Longrightarrow>
             isdir (fs (run_if b (check_database cfg) x)) (DATA_DIR cfg)"
    by (simp add: run_if_def check_database_fs)
  have 2: "\<And>b x. isdir (fs x) (DATA_DIR cfg) \<Longrightarrow>
             isdir (fs (run_if b (backup_database cfg) x)) (DATA_DIR cfg)"
    by (simp add: run_if_def backup_keeps_data_dir)
  have 3: "\<And>b x. isdir (fs x) (DATA_DIR cfg) \<Longrightarrow>
             isdir (fs (run_if b (clean_orphaned_files cfg) x)) (DATA_DIR cfg)"
    by (simp add: run_if_def clean_keeps_dirs)
  have "isdir (fs (run_if (CleanFlag \<in> set argv) (clean_orphaned_files cfg)
                  (run_if (BackupFlag \<in> set argv) (backup_database cfg)
                    (run_if (CheckFlag \<in> set argv) (check_database cfg)
                      (w\<lparr>fs := root1\<rparr>))))) (DATA_DIR cfg)"
    by (intro 3 2 1 0)
  then show ?thesis using assms Inr makedirs_isdir[OF Inr] by (simp add: main_eq)
qed

theorem data_dir_after_main_witness:
  "[CheckFlag] \<noteq> [] \<and> makedirs (fs w_empty) (DATA_DIR cfg0) = Inr (Dir [(''data'', Dir [])]) \<and>
   isdir (fs (snd (main cfg0 [CheckFlag] w_empty))) (DATA_DIR cfg0)"
proof -
  have h: "[CheckFlag] \<noteq> []" by simp
  have m: "makedirs (fs w_empty) (DATA_DIR cfg0) = Inr (Dir [(''data'', Dir [])])"
    by (simp add: w_empty_def eval_defs)
  have "case makedirs (fs w_empty) (DATA_DIR cfg0) of
           Inl e \<Rightarrow> main cfg0 [CheckFlag] w_empty = (Raised e, w_empty)
         | Inr root1 \<Rightarrow>
             isdir root1 (DATA_DIR cfg0)
           \<and> main cfg0 [CheckFlag] w_empty =
               (Returned,
                run_if (CleanFlag \<in> set [CheckFlag]) (clean_orphaned_files cfg0)
                  (run_if (BackupFlag \<in> set [CheckFlag]) (backup_database cfg0)
                    (run_if (CheckFlag \<in> set [CheckFlag]) (check_database cfg0)
                      (w_empty\<lparr>fs := root1\<rparr>))))
           \<and> isdir (fs (snd (main cfg0 [CheckFlag] w_empty))) (DATA_DIR cfg0)"
    by (rule data_dir_after_main[OF h])
  then have "isdir (fs (snd (main cfg0 [CheckFlag] w_empty))) (DATA_DIR cfg0)"
    unfolding m sum.case by blast
  then show ?thesis using m by simp
qed

text \<open>
  C10. When the database file exists and listing \<open>UPLOAD_DIR\<close> or \<open>PDF_DIR\<close> raises,
  \<open>clean_orphaned_files\<close> returns \<open>False\<close>, the only thing it does is print the message
  of its outer handler, and the file system is the one it started with.
\<close>

theorem listing_failure_caught:
  assumes "exists_path (fs w) (db_path cfg)"
    and "listdir (fs w) (UPLOAD_DIR cfg) = Inl e1 \<or> listdir (fs w) (PDF_DIR cfg) = Inl e2"
  shows "(\<exists>e. clean_orphaned_files cfg w = (False, print (ErrorCleaning e) w))
         \<and> fs (snd (clean_orphaned_files cfg w)) = fs w"
  using assms
  by (auto simp: clean_orphaned_files_def find_orphans_def print_def
           split: sum.splits option.splits)

theorem listing_failure_caught_witness:
  "exists_path (fs w_nopdf) (db_path cfg0) \<and>
   listdir (fs w_nopdf) (PDF_DIR cfg0) = Inl OSError \<and>
   (\<exists>e. clean_orphaned_files cfg0 w_nopdf = (False, print (ErrorCleaning e) w_nopdf)) \<and>
   fs (snd (clean_orphaned_files cfg0 w_nopdf)) = fs w_nopdf"
proof -
  have h1: "exists_path (fs w_nopdf) (db_path cfg0)"
    by (simp add: w_nopdf_def eval_defs)
  have h2: "listdir (fs w_nopdf) (PDF_DIR cfg0) = Inl OSError"
    by (simp add: w_nopdf_def eval_defs)
  from h2 have h2': "listdir (fs w_nopdf) (UPLOAD_DIR cfg0) = Inl OSError
                     \<or> listdir (fs w_nopdf) (PDF_DIR cfg0) = Inl OSError" by simp
  show ?thesis using h1 h2 listing_failure_caught[OF h1 h2'] by simp
qed

end
